theory Spec2Isabelle
  imports Complex_Main "HOL-Library.Sublist"
begin

section \<open>The MEGNet trainer (matgl/trainer/megnet.py)\<close>

text \<open>
  A shallow embedding of \<^verbatim>\<open>src/matgl/trainer/megnet.py\<close>: the two epoch step functions,
  the class \<^verbatim>\<open>StreamingJSONWriter\<close> and \<^verbatim>\<open>MEGNetTrainer.train\<close>.

  Conventions of the embedding:
  \<^item> a Python exception is a value of \<open>error\<close>; a function that can raise returns
    \<open>error + 'a\<close>, with \<open>Inl\<close> for the exception;
  \<^item> Python floats are idealised as \<open>real\<close> (no rounding, no infinities, no NaN);
  \<^item> the file system is a map from absolute paths (lists of components) to entries, a
    directory or a regular file with its bytes; symbolic links, permissions and a full
    disk are outside the model. Text is written as on POSIX, a line break being one
    byte, and \<^verbatim>\<open>json.dumps\<close> gives ASCII, so that positions in a text file count
    bytes;
  \<^item> torch, dgl and json are external libraries: what they compute is a parameter
    of the embedding (the record \<open>torch\<close> below, the \<open>encoder\<close> of a writer).
\<close>

subsection \<open>Exceptions\<close>

datatype error =
    ZeroDivisionError
  | FileNotFoundError
  | FileExistsError
  | NotADirectoryError
  | IsADirectoryError

subsection \<open>The file system: os.path.exists, shutil.rmtree, os.mkdir, open\<close>

type_synonym path = "string list"

datatype entry = Dir | File string

type_synonym filesystem = "path \<Rightarrow> entry option"

text \<open>The parent directory of a path (\<^verbatim>\<open>os.path.dirname\<close>).\<close>

definition parent :: "path \<Rightarrow> path" where
  "parent p = butlast p"

text \<open>
  The system resolves a path from the root, one component after the other: every
  proper prefix must be a directory. The first that is not decides how a call fails,
  with FileNotFoundError (ENOENT) when it is missing and with NotADirectoryError
  (ENOTDIR) when it is a regular file. \<open>walk fs pre cs\<close> resolves the components \<open>cs\<close>
  below the prefix \<open>pre\<close>; \<open>path_error fs p\<close> is the error of resolving \<open>p\<close>, if any.
\<close>

fun walk :: "filesystem \<Rightarrow> path \<Rightarrow> path \<Rightarrow> error option" where
  "walk fs pre [] = None"
| "walk fs pre (c # cs) =
     (case fs pre of
        None \<Rightarrow> Some FileNotFoundError
      | Some (File x) \<Rightarrow> Some NotADirectoryError
      | Some Dir \<Rightarrow> walk fs (pre @ [c]) cs)"

definition path_error :: "filesystem \<Rightarrow> path \<Rightarrow> error option" where
  "path_error fs p = walk fs [] p"

text \<open>\<^verbatim>\<open>os.path.exists(p)\<close>: the path resolves and there is an entry.\<close>

definition path_exists :: "filesystem \<Rightarrow> path \<Rightarrow> bool" where
  "path_exists fs p = (path_error fs p = None \<and> fs p \<noteq> None)"

text \<open>
  \<^verbatim>\<open>shutil.rmtree(p)\<close> removes the directory \<open>p\<close> and everything below it. On a
  regular file it raises NotADirectoryError, on a missing path FileNotFoundError.
\<close>

definition rmtree :: "filesystem \<Rightarrow> path \<Rightarrow> error + filesystem" where
  "rmtree fs p =
     (case path_error fs p of
        Some e \<Rightarrow> Inl e
      | None \<Rightarrow>
          (case fs p of
             None \<Rightarrow> Inl FileNotFoundError
           | Some (File c) \<Rightarrow> Inl NotADirectoryError
           | Some Dir \<Rightarrow> Inr (\<lambda>q. if prefix p q then None else fs q)))"

text \<open>
  \<^verbatim>\<open>os.mkdir(p)\<close> creates one directory: the error of resolving the path when there
  is one, FileExistsError when the path exists.
\<close>

definition mkdir :: "filesystem \<Rightarrow> path \<Rightarrow> error + filesystem" where
  "mkdir fs p =
     (case path_error fs p of
        Some e \<Rightarrow> Inl e
      | None \<Rightarrow> if fs p \<noteq> None then Inl FileExistsError else Inr (fs(p \<mapsto> Dir)))"

text \<open>
  A text file object as the built-in \<^verbatim>\<open>open\<close> returns it: the path it is open on, the
  cursor, and the writes that are buffered and not yet on disk (each with the position
  it goes to).
\<close>

record text_io =
  name :: path
  pos :: nat
  buffer :: "(nat \<times> string) list"

datatype mode = RPlus | W

text \<open>
  \<^verbatim>\<open>open(p, "r+")\<close> opens an existing regular file for reading and writing, the cursor
  at 0 and the content untouched. \<^verbatim>\<open>open(p, "w")\<close> truncates an existing regular file
  or creates an empty one. Both raise the error of resolving the path when there is one,
  and IsADirectoryError on a directory.
\<close>

definition open_file :: "filesystem \<Rightarrow> path \<Rightarrow> mode \<Rightarrow> error + (filesystem \<times> text_io)" where
  "open_file fs p m =
     (case path_error fs p of
        Some e \<Rightarrow> Inl e
      | None \<Rightarrow>
          (case m of
             RPlus \<Rightarrow>
               (case fs p of
                  None \<Rightarrow> Inl FileNotFoundError
                | Some Dir \<Rightarrow> Inl IsADirectoryError
                | Some (File c) \<Rightarrow> Inr (fs, \<lparr>name = p, pos = 0, buffer = []\<rparr>))
           | W \<Rightarrow>
               (case fs p of
                  Some Dir \<Rightarrow> Inl IsADirectoryError
                | Some (File c) \<Rightarrow> Inr (fs(p \<mapsto> File []), \<lparr>name = p, pos = 0, buffer = []\<rparr>)
                | None \<Rightarrow> Inr (fs(p \<mapsto> File []), \<lparr>name = p, pos = 0, buffer = []\<rparr>))))"

text \<open>The bytes of the regular file at a path (empty when there is none).\<close>

definition contents :: "filesystem \<Rightarrow> path \<Rightarrow> string" where
  "contents fs p = (case fs p of Some (File c) \<Rightarrow> c | _ \<Rightarrow> [])"

text \<open>
  Writing \<open>s\<close> at offset \<open>k\<close> of the bytes \<open>c\<close>: the bytes before \<open>k\<close> stay, \<open>s\<close>
  replaces what it covers, and a gap past the end is filled with zero bytes.
\<close>

definition write_at :: "nat \<Rightarrow> string \<Rightarrow> string \<Rightarrow> string" where
  "write_at k s c =
     take k c @ replicate (k - length c) (char_of (0::nat)) @ s @ drop (k + length s) c"

definition write_bytes :: "filesystem \<Rightarrow> path \<Rightarrow> nat \<times> string \<Rightarrow> filesystem" where
  "write_bytes fs p w = fs(p \<mapsto> File (write_at (fst w) (snd w) (contents fs p)))"

text \<open>\<^verbatim>\<open>f.flush()\<close>: the buffered writes reach the disk, in the order they were made.\<close>

definition flush :: "filesystem \<Rightarrow> text_io \<Rightarrow> filesystem \<times> text_io" where
  "flush fs f = (foldl (\<lambda>d w. write_bytes d (name f) w) fs (buffer f), f\<lparr>buffer := []\<rparr>)"

text \<open>
  \<^verbatim>\<open>f.seek(0, os.SEEK_END)\<close> flushes, moves the cursor to the end of the file and
  returns the new position; \<^verbatim>\<open>f.seek(k)\<close> flushes and moves the cursor to \<open>k\<close>.
\<close>

definition seek_end :: "filesystem \<Rightarrow> text_io \<Rightarrow> filesystem \<times> text_io \<times> nat" where
  "seek_end fs f =
     (let (fs1, f1) = flush fs f;
          n = length (contents fs1 (name f1))
      in (fs1, f1\<lparr>pos := n\<rparr>, n))"

definition seek :: "filesystem \<Rightarrow> text_io \<Rightarrow> nat \<Rightarrow> filesystem \<times> text_io" where
  "seek fs f k = (let (fs1, f1) = flush fs f in (fs1, f1\<lparr>pos := k\<rparr>))"

text \<open>\<^verbatim>\<open>f.write(s)\<close> buffers \<open>s\<close> at the cursor and advances the cursor.\<close>

definition fwrite :: "text_io \<Rightarrow> string \<Rightarrow> text_io" where
  "fwrite f s = f\<lparr>buffer := buffer f @ [(pos f, s)], pos := pos f + length s\<rparr>"

subsection \<open>StreamingJSONWriter\<close>

text \<open>
  The writer holds the open file, the next delimiter and the encoder. \<^verbatim>\<open>json.dumps(obj,
  cls=encoder)\<close> is the function \<open>encoder\<close> from objects to their JSON text.
\<close>

record 'r writer =
  file' :: text_io
  delimeter :: string
  encoder :: "'r \<Rightarrow> string"

text \<open>\<^verbatim>\<open>StreamingJSONWriter.__init__(filename, encoder)\<close>\<close>

definition init :: "filesystem \<Rightarrow> path \<Rightarrow> ('r \<Rightarrow> string) \<Rightarrow> error + (filesystem \<times> 'r writer)" where
  "init fs filename enc =
     (if path_exists fs filename then
        (case open_file fs filename RPlus of
           Inl e \<Rightarrow> Inl e
         | Inr (fs1, f) \<Rightarrow> Inr (fs1, \<lparr>file' = f, delimeter = '','', encoder = enc\<rparr>))
      else
        (case open_file fs filename W of
           Inl e \<Rightarrow> Inl e
         | Inr (fs1, f) \<Rightarrow> Inr (fs1, \<lparr>file' = f, delimeter = ''['', encoder = enc\<rparr>)))"

definition close_str :: string where
  "close_str = ''\<newline>]\<newline>''"

text \<open>
  \<^verbatim>\<open>StreamingJSONWriter.dump(obj)\<close>. The subtraction is Python's, on integers, so that
  \<^verbatim>\<open>max(..., 0)\<close> decides a file shorter than the closing string.
\<close>

definition dump :: "filesystem \<Rightarrow> 'r writer \<Rightarrow> 'r \<Rightarrow> filesystem \<times> 'r writer" where
  "dump fs w obj =
     (let data = encoder w obj;
          (fs1, f1, end) = seek_end fs (file' w);
          (fs2, f2) = seek fs1 f1 (nat (max (int end - int (length close_str)) 0));
          f3 = fwrite f2 (delimeter w @ ''\<newline>    '' @ data @ close_str);
          (fs3, f4) = flush fs2 f3
      in (fs3, w\<lparr>file' := f4, delimeter := '',''\<rparr>))"

text \<open>
  \<^verbatim>\<open>StreamingJSONWriter.close()\<close> closes the file, which flushes it; the writer is not
  used afterwards.
\<close>

definition close :: "filesystem \<Rightarrow> 'r writer \<Rightarrow> filesystem" where
  "close fs w = fst (flush fs (file' w))"

subsection \<open>The external collaborators: model, optimizer, scheduler, tensors\<close>

text \<open>
  A batch graph with the two features the step functions read,
  \<^verbatim>\<open>g.ndata["node_type"]\<close> and \<^verbatim>\<open>g.edata["edge_attr"]\<close>.
\<close>

record ('n, 'e) graph =
  node_type :: 'n
  edge_attr :: 'e

text \<open>
  What \<^verbatim>\<open>torch.save\<close> is given: the checkpoint dictionary (epoch, model,
  optimizer_state_dict, scheduler_state_dict, loss) or the best-model dictionary (model).
\<close>

datatype 'd payload =
    Checkpoint nat 'd 'd 'd real
  | BestModel 'd

text \<open>The dictionary \<^verbatim>\<open>log_dict\<close> of one improving epoch.\<close>

record log_dict =
  Epoch :: nat
  train_loss :: real
  val_loss :: real
  train_time :: real
  val_time :: real

text \<open>
  The model, the optimizer and the scheduler share their mutable state (the optimizer
  holds the model's parameters, the scheduler the optimizer): it is one value of type
  \<open>'s\<close>, together with the model's \<^verbatim>\<open>training\<close> flag, which only
  \<^verbatim>\<open>model.train()\<close> and \<^verbatim>\<open>model.eval()\<close> write.
\<close>

record 's net =
  training :: bool
  state :: 's

text \<open>
  The library operations, as parameters. \<open>forward\<close> is the call \<^verbatim>\<open>model(g,
  edge_feat.float(), node_feat.long(), attrs)\<close>: it reads the training flag, and it may
  update the state (buffers, random generators). \<open>backward\<close> is \<^verbatim>\<open>loss.backward()\<close>
  for the loss of one batch: it is given the loss function, the batch and the target the
  loss was computed from. \<open>default_timer\<close> gives the n-th reading of the clock,
  \<open>torch_dumps\<close> the bytes \<^verbatim>\<open>torch.save\<close> writes, \<open>format_loss\<close> is
  \<^verbatim>\<open>"%6.5f" % x\<close> and \<open>json_dumps\<close> is \<^verbatim>\<open>json.dumps\<close> with the default encoder.
\<close>

record ('s, 'n, 'e, 'a, 't, 'd) torch =
  forward :: "bool \<Rightarrow> 's \<Rightarrow> ('n, 'e) graph \<Rightarrow> 'e \<Rightarrow> 'n \<Rightarrow> 'a \<Rightarrow> 't \<times> 's"
  squeeze :: "'t \<Rightarrow> 't"
  zero_grad :: "'s \<Rightarrow> 's"
  backward :: "('t \<Rightarrow> 't \<Rightarrow> real) \<Rightarrow> 's \<Rightarrow> ('n, 'e) graph \<Rightarrow> 'a \<Rightarrow> 't \<Rightarrow> 's"
  optimizer_step :: "'s \<Rightarrow> 's"
  scheduler_step :: "'s \<Rightarrow> 's"
  as_dict :: "'s \<Rightarrow> 'd"
  optimizer_state_dict :: "'s \<Rightarrow> 'd"
  scheduler_state_dict :: "'s \<Rightarrow> 'd"
  default_timer :: "nat \<Rightarrow> real"
  torch_dumps :: "'d payload \<Rightarrow> string"
  format_loss :: "real \<Rightarrow> string"
  json_dumps :: "log_dict \<Rightarrow> string"

subsection \<open>train_one_step\<close>

text \<open>
  The body of the loop over the batches of \<^verbatim>\<open>train_one_step\<close>: the model after
  the batch and the loss of the batch.
\<close>

definition train_batch ::
  "('s, 'n, 'e, 'a, 't::{plus,minus,times,inverse}, 'd) torch \<Rightarrow> ('t \<Rightarrow> 't \<Rightarrow> real) \<Rightarrow> 't \<Rightarrow> 't \<Rightarrow>
     's net \<Rightarrow> ('n, 'e) graph \<times> 't \<times> 'a \<Rightarrow> 's net \<times> real" where
  "train_batch T loss_function data_std data_mean model batch =
     (let (g, labels, attrs) = batch;
          s1 = zero_grad T (state model);
          node_feat = node_type g;
          edge_feat = edge_attr g;
          (pred, s2) = forward T (training model) s1 g edge_feat node_feat attrs;
          pred = squeeze T pred;
          loss = loss_function pred ((labels - data_mean) / data_std);
          s3 = backward T loss_function s2 g attrs ((labels - data_mean) / data_std);
          s4 = optimizer_step T s3
      in (model\<lparr>state := s4\<rparr>, loss))"

text \<open>The loop, with the running sum \<^verbatim>\<open>avg_loss\<close> as accumulator.\<close>

fun train_batches ::
  "('s, 'n, 'e, 'a, 't::{plus,minus,times,inverse}, 'd) torch \<Rightarrow> ('t \<Rightarrow> 't \<Rightarrow> real) \<Rightarrow> 't \<Rightarrow> 't \<Rightarrow>
     's net \<Rightarrow> real \<Rightarrow> (('n, 'e) graph \<times> 't \<times> 'a) list \<Rightarrow> 's net \<times> real" where
  "train_batches T loss_function data_std data_mean model avg_loss [] = (model, avg_loss)"
| "train_batches T loss_function data_std data_mean model avg_loss (batch # rest) =
     (let (model1, loss) = train_batch T loss_function data_std data_mean model batch
      in train_batches T loss_function data_std data_mean model1 (avg_loss + loss) rest)"

text \<open>
  \<open>start\<close> and \<open>stop\<close> are the two readings of \<^verbatim>\<open>default_timer()\<close>. Python's
  \<^verbatim>\<open>x / len(dataloader)\<close> raises ZeroDivisionError when the length is 0.
\<close>

definition train_one_step ::
  "('s, 'n, 'e, 'a, 't::{plus,minus,times,inverse}, 'd) torch \<Rightarrow> 's net \<Rightarrow> ('t \<Rightarrow> 't \<Rightarrow> real) \<Rightarrow> 't \<Rightarrow> 't \<Rightarrow>
     (('n, 'e) graph \<times> 't \<times> 'a) list \<Rightarrow> real \<Rightarrow> real \<Rightarrow> error + ('s net \<times> real \<times> real)" where
  "train_one_step T model loss_function data_std data_mean dataloader start stop =
     (let model1 = model\<lparr>training := True\<rparr>;
          (model2, avg_loss) = train_batches T loss_function data_std data_mean model1 0 dataloader
      in if length dataloader = 0 then Inl ZeroDivisionError
         else Inr (model2, avg_loss / real (length dataloader), stop - start))"

subsection \<open>validate_one_step\<close>

text \<open>
  The body of the loop of \<^verbatim>\<open>validate_one_step\<close>. It runs under
  \<^verbatim>\<open>torch.no_grad()\<close>, which changes no value computed here.
\<close>

definition validate_batch ::
  "('s, 'n, 'e, 'a, 't::{plus,minus,times,inverse}, 'd) torch \<Rightarrow> ('t \<Rightarrow> 't \<Rightarrow> real) \<Rightarrow> 't \<Rightarrow> 't \<Rightarrow>
     's net \<Rightarrow> ('n, 'e) graph \<times> 't \<times> 'a \<Rightarrow> 's net \<times> real" where
  "validate_batch T loss_function data_std data_mean model batch =
     (let (g, labels, attrs) = batch;
          node_feat = node_type g;
          edge_feat = edge_attr g;
          (pred, s1) = forward T (training model) (state model) g edge_feat node_feat attrs;
          pred = squeeze T pred;
          loss = loss_function (data_mean + pred * data_std) labels
      in (model\<lparr>state := s1\<rparr>, loss))"

fun validate_batches ::
  "('s, 'n, 'e, 'a, 't::{plus,minus,times,inverse}, 'd) torch \<Rightarrow> ('t \<Rightarrow> 't \<Rightarrow> real) \<Rightarrow> 't \<Rightarrow> 't \<Rightarrow>
     's net \<Rightarrow> real \<Rightarrow> (('n, 'e) graph \<times> 't \<times> 'a) list \<Rightarrow> 's net \<times> real" where
  "validate_batches T loss_function data_std data_mean model avg_loss [] = (model, avg_loss)"
| "validate_batches T loss_function data_std data_mean model avg_loss (batch # rest) =
     (let (model1, loss) = validate_batch T loss_function data_std data_mean model batch
      in validate_batches T loss_function data_std data_mean model1 (avg_loss + loss) rest)"

definition validate_one_step ::
  "('s, 'n, 'e, 'a, 't::{plus,minus,times,inverse}, 'd) torch \<Rightarrow> 's net \<Rightarrow> ('t \<Rightarrow> 't \<Rightarrow> real) \<Rightarrow> 't \<Rightarrow> 't \<Rightarrow>
     (('n, 'e) graph \<times> 't \<times> 'a) list \<Rightarrow> real \<Rightarrow> real \<Rightarrow> error + ('s net \<times> real \<times> real)" where
  "validate_one_step T model loss_function data_std data_mean dataloader start stop =
     (let (model1, avg_loss) = validate_batches T loss_function data_std data_mean model 0 dataloader
      in if length dataloader = 0 then Inl ZeroDivisionError
         else Inr (model1, avg_loss / real (length dataloader), stop - start))"

subsection \<open>MEGNetTrainer.train\<close>

text \<open>
  \<^verbatim>\<open>torch.save(obj, path)\<close> opens the path for writing, writes the bytes and closes
  the file.
\<close>

definition torch_save :: "filesystem \<Rightarrow> string \<Rightarrow> path \<Rightarrow> error + filesystem" where
  "torch_save fs bytes p =
     (case open_file fs p W of
        Inl e \<Rightarrow> Inl e
      | Inr (fs1, f) \<Rightarrow> Inr (fst (flush fs1 (fwrite f bytes))))"

text \<open>\<^verbatim>\<open>"%05d" % n\<close>: the decimal digits of \<open>n\<close>, padded with zeros to five.\<close>

fun digits :: "nat \<Rightarrow> string" where
  "digits n =
     (if n < 10 then [char_of (48 + n)]
      else digits (n div 10) @ [char_of (48 + n mod 10)])"

declare digits.simps [simp del]

definition format_05d :: "nat \<Rightarrow> string" where
  "format_05d n = replicate (5 - length (digits n)) (CHR ''0'') @ digits n"

text \<open>
  Lines 149 to 158: the two directories below the working directory are removed when
  they exist, and made.
\<close>

definition reset_dirs :: "filesystem \<Rightarrow> path \<Rightarrow> error + filesystem" where
  "reset_dirs fs path =
     (let outpath = path @ [''BestModel''];
          checkpath = path @ [''CheckPoints'']
      in case (if path_exists fs outpath then rmtree fs outpath else Inr fs) of
           Inl e \<Rightarrow> Inl e
         | Inr fs1 \<Rightarrow>
        (case mkdir fs1 outpath of
           Inl e \<Rightarrow> Inl e
         | Inr fs2 \<Rightarrow>
        (case (if path_exists fs2 checkpath then rmtree fs2 checkpath else Inr fs2) of
           Inl e \<Rightarrow> Inl e
         | Inr fs3 \<Rightarrow> mkdir fs3 checkpath)))"

text \<open>
  The state of the epoch loop: the model (with optimizer and scheduler), the file
  system, the writer and \<^verbatim>\<open>best_val_loss\<close>. Two history fields record the calls made
  so far: \<open>saved\<close> the \<^verbatim>\<open>torch.save\<close> calls (path and object), \<open>logged\<close> the objects
  given to \<^verbatim>\<open>jsonlog.dump\<close>.
\<close>

record ('s, 'd) loop_state =
  net_of :: "'s net"
  disk :: filesystem
  jsonlog :: "log_dict writer"
  best_val_loss :: real
  saved :: "(path \<times> 'd payload) list"
  logged :: "log_dict list"

text \<open>
  Every epoch reads the clock four times, at the start and the end of each step function:
  the readings of the 0-based \<open>epoch\<close> are numbers \<open>4 * epoch\<close> to \<open>4 * epoch + 3\<close>.
\<close>

definition train_start :: "('s, 'n, 'e, 'a, 't, 'd) torch \<Rightarrow> nat \<Rightarrow> real" where
  "train_start T epoch = default_timer T (4 * epoch)"

definition train_stop :: "('s, 'n, 'e, 'a, 't, 'd) torch \<Rightarrow> nat \<Rightarrow> real" where
  "train_stop T epoch = default_timer T (4 * epoch + 1)"

definition val_start :: "('s, 'n, 'e, 'a, 't, 'd) torch \<Rightarrow> nat \<Rightarrow> real" where
  "val_start T epoch = default_timer T (4 * epoch + 2)"

definition val_stop :: "('s, 'n, 'e, 'a, 't, 'd) torch \<Rightarrow> nat \<Rightarrow> real" where
  "val_stop T epoch = default_timer T (4 * epoch + 3)"

text \<open>
  One pass of the loop body, for the 0-based \<open>epoch\<close>. The messages given to
  \<^verbatim>\<open>logger.info\<close> are not modelled.
\<close>

definition epoch_body ::
  "('s, 'n, 'e, 'a, 't::{plus,minus,times,inverse}, 'd) torch \<Rightarrow> ('t \<Rightarrow> 't \<Rightarrow> real) \<Rightarrow> ('t \<Rightarrow> 't \<Rightarrow> real) \<Rightarrow>
     't \<Rightarrow> 't \<Rightarrow> (('n, 'e) graph \<times> 't \<times> 'a) list \<Rightarrow> (('n, 'e) graph \<times> 't \<times> 'a) list \<Rightarrow>
     path \<Rightarrow> path \<Rightarrow> ('s, 'd) loop_state \<Rightarrow> nat \<Rightarrow> error + ('s, 'd) loop_state" where
  "epoch_body T train_loss_func val_loss_func data_std data_mean train_loader val_loader
       outpath checkpath st epoch =
     (case train_one_step T (net_of st) train_loss_func data_std data_mean train_loader
             (train_start T epoch) (train_stop T epoch) of
        Inl e \<Rightarrow> Inl e
      | Inr (m1, tloss, ttime) \<Rightarrow>
     (case validate_one_step T m1 val_loss_func data_std data_mean val_loader
             (val_start T epoch) (val_stop T epoch) of
        Inl e \<Rightarrow> Inl e
      | Inr (m2, vloss, vtime) \<Rightarrow>
        (let m3 = m2\<lparr>state := scheduler_step T (state m2)\<rparr> in
         if vloss < best_val_loss st then
           (let ckpt = Checkpoint (epoch + 1) (as_dict T (state m3))
                         (optimizer_state_dict T (state m3)) (scheduler_state_dict T (state m3)) vloss;
                ckpt_path = checkpath @ [format_05d (epoch + 1) @ ''-'' @ format_loss T vloss @ ''.pt''];
                best = BestModel (as_dict T (state m3));
                best_path = outpath @ [''best-model.pt''];
                log_dict = \<lparr>Epoch = epoch + 1, train_loss = tloss, val_loss = vloss,
                            train_time = ttime, val_time = vtime\<rparr>
            in case torch_save (disk st) (torch_dumps T ckpt) ckpt_path of
                 Inl e \<Rightarrow> Inl e
               | Inr fs1 \<Rightarrow>
                   (let (fs2, w) = dump fs1 (jsonlog st) log_dict in
                    case torch_save fs2 (torch_dumps T best) best_path of
                      Inl e \<Rightarrow> Inl e
                    | Inr fs3 \<Rightarrow>
                        Inr (st\<lparr>net_of := m3, disk := fs3, jsonlog := w, best_val_loss := vloss,
                                saved := saved st @ [(ckpt_path, ckpt), (best_path, best)],
                                logged := logged st @ [log_dict]\<rparr>)))
         else Inr (st\<lparr>net_of := m3\<rparr>))))"

text \<open>The loop \<^verbatim>\<open>for epoch in range(num_epochs)\<close>: an exception ends it.\<close>

fun train_loop ::
  "('s, 'n, 'e, 'a, 't::{plus,minus,times,inverse}, 'd) torch \<Rightarrow> ('t \<Rightarrow> 't \<Rightarrow> real) \<Rightarrow> ('t \<Rightarrow> 't \<Rightarrow> real) \<Rightarrow>
     't \<Rightarrow> 't \<Rightarrow> (('n, 'e) graph \<times> 't \<times> 'a) list \<Rightarrow> (('n, 'e) graph \<times> 't \<times> 'a) list \<Rightarrow>
     path \<Rightarrow> path \<Rightarrow> ('s, 'd) loop_state \<Rightarrow> nat list \<Rightarrow> error + ('s, 'd) loop_state" where
  "train_loop T train_loss_func val_loss_func data_std data_mean train_loader val_loader
       outpath checkpath st [] = Inr st"
| "train_loop T train_loss_func val_loss_func data_std data_mean train_loader val_loader
       outpath checkpath st (epoch # epochs) =
     (case epoch_body T train_loss_func val_loss_func data_std data_mean train_loader val_loader
             outpath checkpath st epoch of
        Inl e \<Rightarrow> Inl e
      | Inr st1 \<Rightarrow>
          train_loop T train_loss_func val_loss_func data_std data_mean train_loader val_loader
            outpath checkpath st1 epochs)"

text \<open>
  Lines 159 to 203 of \<^verbatim>\<open>MEGNetTrainer.train\<close>: the writer is opened, the loop runs from
  \<^verbatim>\<open>best_val_loss = 1000.0\<close>, the writer is closed.
\<close>

definition run_epochs ::
  "('s, 'n, 'e, 'a, 't::{plus,minus,times,inverse}, 'd) torch \<Rightarrow> 's net \<Rightarrow> int \<Rightarrow>
     ('t \<Rightarrow> 't \<Rightarrow> real) \<Rightarrow> ('t \<Rightarrow> 't \<Rightarrow> real) \<Rightarrow> 't \<Rightarrow> 't \<Rightarrow>
     (('n, 'e) graph \<times> 't \<times> 'a) list \<Rightarrow> (('n, 'e) graph \<times> 't \<times> 'a) list \<Rightarrow>
     path \<Rightarrow> path \<Rightarrow> path \<Rightarrow> filesystem \<Rightarrow> error + ('s, 'd) loop_state" where
  "run_epochs T self num_epochs train_loss_func val_loss_func data_std data_mean train_loader val_loader
       logger_name outpath checkpath fs =
     (case init fs logger_name (json_dumps T) of
        Inl e \<Rightarrow> Inl e
      | Inr (fs1, w) \<Rightarrow>
     (case train_loop T train_loss_func val_loss_func data_std data_mean train_loader val_loader
             outpath checkpath
             \<lparr>net_of = self, disk = fs1, jsonlog = w, best_val_loss = 1000,
              saved = [], logged = []\<rparr>
             [0..<nat num_epochs] of
        Inl e \<Rightarrow> Inl e
      | Inr st \<Rightarrow> Inr (st\<lparr>disk := close (disk st) (jsonlog st)\<rparr>)))"

text \<open>
  \<^verbatim>\<open>MEGNetTrainer.train\<close>. \<open>self\<close> is the trainer's model, optimizer and scheduler,
  \<open>path\<close> the result of \<^verbatim>\<open>os.getcwd()\<close> and \<open>fs\<close> the file system the run starts on;
  \<open>logger_name\<close> is the absolute path of the log file.
\<close>

definition train ::
  "('s, 'n, 'e, 'a, 't::{plus,minus,times,inverse}, 'd) torch \<Rightarrow> 's net \<Rightarrow> int \<Rightarrow>
     ('t \<Rightarrow> 't \<Rightarrow> real) \<Rightarrow> ('t \<Rightarrow> 't \<Rightarrow> real) \<Rightarrow> 't \<Rightarrow> 't \<Rightarrow>
     (('n, 'e) graph \<times> 't \<times> 'a) list \<Rightarrow> (('n, 'e) graph \<times> 't \<times> 'a) list \<Rightarrow>
     path \<Rightarrow> path \<Rightarrow> filesystem \<Rightarrow> error + ('s, 'd) loop_state" where
  "train T self num_epochs train_loss_func val_loss_func data_std data_mean train_loader val_loader
       logger_name path fs =
     (case reset_dirs fs path of
        Inl e \<Rightarrow> Inl e
      | Inr fs1 \<Rightarrow>
          run_epochs T self num_epochs train_loss_func val_loss_func data_std data_mean
            train_loader val_loader logger_name (path @ [''BestModel'']) (path @ [''CheckPoints'']) fs1)"

section \<open>Notions the properties are stated with\<close>

subsection \<open>The losses of one pass\<close>

text \<open>
  The losses of the batches of one pass, in the order of the batches: the model a batch
  meets is the one the batches before it left.
\<close>

fun train_losses ::
  "('s, 'n, 'e, 'a, 't::{plus,minus,times,inverse}, 'd) torch \<Rightarrow> ('t \<Rightarrow> 't \<Rightarrow> real) \<Rightarrow> 't \<Rightarrow> 't \<Rightarrow>
     's net \<Rightarrow> (('n, 'e) graph \<times> 't \<times> 'a) list \<Rightarrow> real list" where
  "train_losses T loss_function data_std data_mean model [] = []"
| "train_losses T loss_function data_std data_mean model (batch # rest) =
     (let (model1, loss) = train_batch T loss_function data_std data_mean model batch
      in loss # train_losses T loss_function data_std data_mean model1 rest)"

fun validate_losses ::
  "('s, 'n, 'e, 'a, 't::{plus,minus,times,inverse}, 'd) torch \<Rightarrow> ('t \<Rightarrow> 't \<Rightarrow> real) \<Rightarrow> 't \<Rightarrow> 't \<Rightarrow>
     's net \<Rightarrow> (('n, 'e) graph \<times> 't \<times> 'a) list \<Rightarrow> real list" where
  "validate_losses T loss_function data_std data_mean model [] = []"
| "validate_losses T loss_function data_std data_mean model (batch # rest) =
     (let (model1, loss) = validate_batch T loss_function data_std data_mean model batch
      in loss # validate_losses T loss_function data_std data_mean model1 rest)"

subsection \<open>Reading a file as a JSON array\<close>

text \<open>
  A JSON array is an opening bracket, values separated by commas, and a closing bracket,
  with white space allowed around each of them. The values are read by a decoder \<open>dec\<close>
  for one JSON value, which returns the value and the text after it
  (\<^verbatim>\<open>json.JSONDecoder.raw_decode\<close>); the array is read here.
\<close>

definition is_ws :: "char \<Rightarrow> bool" where
  "is_ws ch = (ch = CHR '' '' \<or> ch = CHR ''\<newline>'' \<or> ch = CHR 0x0D \<or> ch = CHR 0x09)"

definition skip_ws :: "string \<Rightarrow> string" where
  "skip_ws s = dropWhile is_ws s"

function parse_elems :: "(string \<Rightarrow> ('r \<times> string) option) \<Rightarrow> string \<Rightarrow> 'r list option" where
  "parse_elems dec s =
     (case dec (skip_ws s) of
        None \<Rightarrow> None
      | Some (v, rest) \<Rightarrow>
          if length rest < length s then
            (case skip_ws rest of
               [] \<Rightarrow> None
             | ch # t \<Rightarrow>
                 if ch = CHR '','' then map_option ((#) v) (parse_elems dec t)
                 else if ch = CHR '']'' \<and> skip_ws t = [] then Some [v]
                 else None)
          else None)"
  by pat_completeness auto
termination
proof (relation "measure (\<lambda>(dec, s). length s)")
  show "wf (measure (\<lambda>(dec :: string \<Rightarrow> ('r \<times> string) option, s :: string). length s))"
    by simp
next
  fix dec :: "string \<Rightarrow> ('r \<times> string) option"
  fix s rest t :: string and x2 :: "'r \<times> string" and v :: 'r and ch :: char
  assume "length rest < length s" and "skip_ws rest = ch # t"
  moreover have "length (dropWhile is_ws rest) \<le> length rest"
    by (rule length_dropWhile_le)
  ultimately show "((dec, t), (dec, s)) \<in> measure (\<lambda>(dec, s). length s)"
    by (simp add: skip_ws_def)
qed

declare parse_elems.simps [simp del]

definition parse_json_array :: "(string \<Rightarrow> ('r \<times> string) option) \<Rightarrow> string \<Rightarrow> 'r list option" where
  "parse_json_array dec s =
     (case skip_ws s of
        [] \<Rightarrow> None
      | ch # t \<Rightarrow>
          if ch = CHR ''['' then
            (case skip_ws t of
               [] \<Rightarrow> None
             | ch2 # u \<Rightarrow>
                 if ch2 = CHR '']'' then (if skip_ws u = [] then Some [] else None)
                 else parse_elems dec t)
          else None)"

subsection \<open>Sessions of a writer\<close>

text \<open>
  The objects of a list are dumped in order. A session is one writer's life on a path:
  it is constructed, dumps the objects and is closed. Sessions follow one another on the
  same path.
\<close>

fun dump_all :: "filesystem \<Rightarrow> 'r writer \<Rightarrow> 'r list \<Rightarrow> filesystem \<times> 'r writer" where
  "dump_all fs w [] = (fs, w)"
| "dump_all fs w (obj # objs) = (let (fs1, w1) = dump fs w obj in dump_all fs1 w1 objs)"

definition session :: "filesystem \<Rightarrow> path \<Rightarrow> ('r \<Rightarrow> string) \<Rightarrow> 'r list \<Rightarrow> error + filesystem" where
  "session fs p enc objs =
     (case init fs p enc of
        Inl e \<Rightarrow> Inl e
      | Inr (fs1, w) \<Rightarrow> Inr (let (fs2, w2) = dump_all fs1 w objs in close fs2 w2))"

fun sessions :: "filesystem \<Rightarrow> path \<Rightarrow> ('r \<Rightarrow> string) \<Rightarrow> 'r list list \<Rightarrow> error + filesystem" where
  "sessions fs p enc [] = Inr fs"
| "sessions fs p enc (objs # rest) =
     (case session fs p enc objs of
        Inl e \<Rightarrow> Inl e
      | Inr fs1 \<Rightarrow> sessions fs1 p enc rest)"

subsection \<open>Well-formed file systems\<close>

text \<open>Whatever exists lies in directories: every proper prefix of its path is one.\<close>

definition wf_fs :: "filesystem \<Rightarrow> bool" where
  "wf_fs fs = (\<forall>q. fs q \<noteq> None \<longrightarrow> (\<forall>p. strict_prefix p q \<longrightarrow> fs p = Some Dir))"

subsection \<open>The validation losses of a run\<close>

text \<open>
  What the step functions return epoch after epoch (train loss, train time, validation
  loss, validation time), as far as they return: the model an epoch starts from is the
  one the epoch before left after \<^verbatim>\<open>scheduler.step()\<close>. Neither the checkpoints nor
  the log change the model, so the sequence does not depend on them.
\<close>

fun step_results ::
  "('s, 'n, 'e, 'a, 't::{plus,minus,times,inverse}, 'd) torch \<Rightarrow> ('t \<Rightarrow> 't \<Rightarrow> real) \<Rightarrow> ('t \<Rightarrow> 't \<Rightarrow> real) \<Rightarrow>
     't \<Rightarrow> 't \<Rightarrow> (('n, 'e) graph \<times> 't \<times> 'a) list \<Rightarrow> (('n, 'e) graph \<times> 't \<times> 'a) list \<Rightarrow>
     's net \<Rightarrow> nat list \<Rightarrow> (real \<times> real \<times> real \<times> real) list" where
  "step_results T train_loss_func val_loss_func data_std data_mean train_loader val_loader m [] = []"
| "step_results T train_loss_func val_loss_func data_std data_mean train_loader val_loader m (epoch # epochs) =
     (case train_one_step T m train_loss_func data_std data_mean train_loader
             (train_start T epoch) (train_stop T epoch) of
        Inl e \<Rightarrow> []
      | Inr (m1, tloss, ttime) \<Rightarrow>
     (case validate_one_step T m1 val_loss_func data_std data_mean val_loader
             (val_start T epoch) (val_stop T epoch) of
        Inl e \<Rightarrow> []
      | Inr (m2, vloss, vtime) \<Rightarrow>
          (tloss, ttime, vloss, vtime) #
          step_results T train_loss_func val_loss_func data_std data_mean train_loader val_loader
            (m2\<lparr>state := scheduler_step T (state m2)\<rparr>) epochs))"

definition val_losses ::
  "('s, 'n, 'e, 'a, 't::{plus,minus,times,inverse}, 'd) torch \<Rightarrow> ('t \<Rightarrow> 't \<Rightarrow> real) \<Rightarrow> ('t \<Rightarrow> 't \<Rightarrow> real) \<Rightarrow>
     't \<Rightarrow> 't \<Rightarrow> (('n, 'e) graph \<times> 't \<times> 'a) list \<Rightarrow> (('n, 'e) graph \<times> 't \<times> 'a) list \<Rightarrow>
     's net \<Rightarrow> nat list \<Rightarrow> real list" where
  "val_losses T train_loss_func val_loss_func data_std data_mean train_loader val_loader m epochs =
     map (\<lambda>r. fst (snd (snd r)))
       (step_results T train_loss_func val_loss_func data_std data_mean train_loader val_loader m epochs)"

text \<open>
  The epoch and the loss of every checkpoint among the \<^verbatim>\<open>torch.save\<close> calls, and of
  every dumped record.
\<close>

fun checkpoints :: "(path \<times> 'd payload) list \<Rightarrow> (nat \<times> real) list" where
  "checkpoints [] = []"
| "checkpoints ((p, Checkpoint e m opt sch l) # rest) = (e, l) # checkpoints rest"
| "checkpoints ((p, BestModel m) # rest) = checkpoints rest"

definition records :: "log_dict list \<Rightarrow> (nat \<times> real) list" where
  "records ds = map (\<lambda>d. (Epoch d, val_loss d)) ds"

text \<open>
  The loss at position \<open>k\<close> of \<open>vs\<close> improves on the bound \<open>b\<close> and on every loss
  before it.
\<close>

definition improves :: "real \<Rightarrow> real list \<Rightarrow> nat \<Rightarrow> bool" where
  "improves b vs k = (vs ! k < b \<and> (\<forall>v\<in>set (take k vs). vs ! k < v))"

text \<open>The epochs kept by a loop that starts from the best loss \<open>b\<close>.\<close>

fun improving :: "real \<Rightarrow> (nat \<times> real) list \<Rightarrow> (nat \<times> real) list" where
  "improving b [] = []"
| "improving b ((e, v) # rest) = (if v < b then (e, v) # improving v rest else improving b rest)"

subsection \<open>Concrete inputs\<close>

text \<open>
  A small world to run the definitions on. The state of the model is the list of the
  predictions still to come: the model predicts the head, and
  \<^verbatim>\<open>scheduler.step()\<close> drops it, so that the losses of the epochs can be chosen.
\<close>

definition ex_torch :: "(real list, unit, unit, unit, real, unit) torch" where
  "ex_torch =
     \<lparr>forward = (\<lambda>tr s g e n a. (case s of [] \<Rightarrow> 0 | x # xs \<Rightarrow> x, s)),
      squeeze = (\<lambda>t. t),
      zero_grad = (\<lambda>s. s),
      backward = (\<lambda>lf s g a t. s),
      optimizer_step = (\<lambda>s. s),
      scheduler_step = tl,
      as_dict = (\<lambda>s. ()),
      optimizer_state_dict = (\<lambda>s. ()),
      scheduler_state_dict = (\<lambda>s. ()),
      default_timer = real,
      torch_dumps = (\<lambda>p. ''pt''),
      format_loss = (\<lambda>x. ''x''),
      json_dumps = (\<lambda>d. ''{}'')\<rparr>"

definition abs_err :: "real \<Rightarrow> real \<Rightarrow> real" where
  "abs_err pred target = \<bar>pred - target\<bar>"

definition sq_err :: "real \<Rightarrow> real \<Rightarrow> real" where
  "sq_err pred target = (pred - target) * (pred - target)"

definition ex_batch :: "(unit, unit) graph \<times> real \<times> unit" where
  "ex_batch = (\<lparr>node_type = (), edge_attr = ()\<rparr>, 0, ())"

definition ex_net :: "real list \<Rightarrow> real list net" where
  "ex_net preds = \<lparr>training = False, state = preds\<rparr>"

definition ex_fs :: filesystem where
  "ex_fs = [[] \<mapsto> Dir, [''run''] \<mapsto> Dir]"

definition ex_log :: path where
  "ex_log = [''run'', ''log.json'']"

text \<open>
  The file system once the directories are reset and the log is created, and the state
  the loop starts from there.
\<close>

definition ex_disk :: filesystem where
  "ex_disk = ex_fs([''run'', ''BestModel''] \<mapsto> Dir, [''run'', ''CheckPoints''] \<mapsto> Dir, ex_log \<mapsto> File [])"

definition ex_state :: "real list \<Rightarrow> (real list, unit) loop_state" where
  "ex_state preds =
     \<lparr>net_of = ex_net preds, disk = ex_disk,
      jsonlog = \<lparr>file' = \<lparr>name = ex_log, pos = 0, buffer = []\<rparr>, delimeter = ''['',
                 encoder = json_dumps ex_torch\<rparr>,
      best_val_loss = 1000, saved = [], logged = []\<rparr>"

text \<open>
  A working directory that holds the two directories of an earlier run, and one where
  \<^verbatim>\<open>BestModel\<close> is a regular file.
\<close>

definition ex_stale :: filesystem where
  "ex_stale =
     ex_fs([''run'', ''BestModel''] \<mapsto> Dir,
           [''run'', ''BestModel'', ''best-model.pt''] \<mapsto> File ''old'',
           [''run'', ''CheckPoints''] \<mapsto> Dir,
           [''run'', ''CheckPoints'', ''00001-0.50000.pt''] \<mapsto> File ''old'')"

definition ex_blocked :: filesystem where
  "ex_blocked = ex_fs([''run'', ''BestModel''] \<mapsto> File ''notes'')"

text \<open>A codec for the two JSON values \<^verbatim>\<open>true\<close> and \<^verbatim>\<open>false\<close>.\<close>

definition bool_enc :: "bool \<Rightarrow> string" where
  "bool_enc b = (if b then ''true'' else ''false'')"

definition bool_dec :: "string \<Rightarrow> (bool \<times> string) option" where
  "bool_dec s =
     (if take 4 s = ''true'' then Some (True, drop 4 s)
      else if take 5 s = ''false'' then Some (False, drop 5 s)
      else None)"

section \<open>Properties\<close>

subsection \<open>Evaluating the definitions\<close>

lemmas fs_defs = path_error_def path_exists_def parent_def rmtree_def mkdir_def open_file_def contents_def
  write_at_def write_bytes_def flush_def seek_end_def seek_def fwrite_def

lemmas writer_defs = init_def dump_def close_def close_str_def

lemmas step_defs = train_batch_def validate_batch_def train_one_step_def validate_one_step_def

lemmas loop_defs = torch_save_def reset_dirs_def epoch_body_def run_epochs_def train_def
  train_start_def train_stop_def val_start_def val_stop_def

lemmas ex_defs = ex_torch_def abs_err_def sq_err_def ex_batch_def ex_net_def ex_fs_def ex_log_def
  ex_disk_def ex_state_def ex_stale_def ex_blocked_def

subsection \<open>Resolving paths\<close>

lemma walk_dirs:
  "(\<And>q. strict_prefix q cs \<Longrightarrow> fs (pre @ q) = Some Dir) \<Longrightarrow> walk fs pre cs = None"
proof (induction cs arbitrary: pre)
  case Nil
  then show ?case by simp
next
  case (Cons c cs)
  have "fs (pre @ []) = Some Dir"
    by (rule Cons.prems) (simp add: strict_prefix_def)
  moreover have "walk fs (pre @ [c]) cs = None"
  proof (rule Cons.IH)
    fix q assume "strict_prefix q cs"
    then have "strict_prefix (c # q) (c # cs)" by (simp add: strict_prefix_def)
    from Cons.prems[OF this] show "fs ((pre @ [c]) @ q) = Some Dir" by simp
  qed
  ultimately show ?case by simp
qed

lemma walk_cong:
  "(\<And>q. strict_prefix q cs \<Longrightarrow> fs' (pre @ q) = fs (pre @ q)) \<Longrightarrow> walk fs' pre cs = walk fs pre cs"
proof (induction cs arbitrary: pre)
  case Nil
  then show ?case by simp
next
  case (Cons c cs)
  have here: "fs' pre = fs pre"
    using Cons.prems[of "[]"] by (simp add: strict_prefix_def)
  have "walk fs' (pre @ [c]) cs = walk fs (pre @ [c]) cs"
  proof (rule Cons.IH)
    fix q assume "strict_prefix q cs"
    then have "strict_prefix (c # q) (c # cs)" by (simp add: strict_prefix_def)
    from Cons.prems[OF this] show "fs' ((pre @ [c]) @ q) = fs ((pre @ [c]) @ q)" by simp
  qed
  with here show ?case by (simp split: option.splits entry.splits)
qed

lemma walk_file:
  "strict_prefix q cs \<Longrightarrow> fs (pre @ q) = Some (File x) \<Longrightarrow>
   (\<And>r. strict_prefix r q \<Longrightarrow> fs (pre @ r) = Some Dir) \<Longrightarrow>
   walk fs pre cs = Some NotADirectoryError"
proof (induction cs arbitrary: pre q)
  case Nil
  then show ?case by (simp add: strict_prefix_def)
next
  case (Cons c cs)
  show ?case
  proof (cases q)
    case Nil
    with Cons.prems(2) show ?thesis by simp
  next
    case (Cons d q')
    with Cons.prems(1) have d: "d = c" and q': "strict_prefix q' cs"
      by (auto simp: strict_prefix_def)
    have here: "fs pre = Some Dir"
      using Cons.prems(3)[of "[]"] Cons by (simp add: strict_prefix_def)
    have "walk fs (pre @ [c]) cs = Some NotADirectoryError"
    proof (rule Cons.IH[OF q'])
      show "fs ((pre @ [c]) @ q') = Some (File x)"
        using Cons.prems(2) Cons d by simp
      fix r assume "strict_prefix r q'"
      then have "strict_prefix (c # r) q" by (simp add: Cons d strict_prefix_def)
      from Cons.prems(3)[OF this] show "fs ((pre @ [c]) @ r) = Some Dir" by simp
    qed
    with here show ?thesis by simp
  qed
qed

lemma walk_missing:
  "strict_prefix r cs \<Longrightarrow> fs (pre @ r) = None \<Longrightarrow>
   (\<And>q x. strict_prefix q cs \<Longrightarrow> fs (pre @ q) \<noteq> Some (File x)) \<Longrightarrow>
   walk fs pre cs = Some FileNotFoundError"
proof (induction cs arbitrary: pre r)
  case Nil
  then show ?case by (simp add: strict_prefix_def)
next
  case (Cons c cs)
  show ?case
  proof (cases "fs pre")
    case None
    then show ?thesis by simp
  next
    case (Some e)
    have nf: "fs pre \<noteq> Some (File x)" for x
      using Cons.prems(3)[of "[]" x] by (simp add: strict_prefix_def)
    with Some have dir: "fs pre = Some Dir" by (cases e) auto
    with Cons.prems(2) obtain d r' where r: "r = d # r'" by (cases r) auto
    with Cons.prems(1) have d: "d = c" and r': "strict_prefix r' cs"
      by (auto simp: strict_prefix_def)
    have "walk fs (pre @ [c]) cs = Some FileNotFoundError"
    proof (rule Cons.IH[OF r'])
      show "fs ((pre @ [c]) @ r') = None"
        using Cons.prems(2) r d by simp
      fix q x assume "strict_prefix q cs"
      then have "strict_prefix (c # q) (c # cs)" by (simp add: strict_prefix_def)
      from Cons.prems(3)[OF this] show "fs ((pre @ [c]) @ q) \<noteq> Some (File x)" by simp
    qed
    with dir show ?thesis by simp
  qed
qed

lemma path_error_dirs: "(\<And>q. strict_prefix q p \<Longrightarrow> fs q = Some Dir) \<Longrightarrow> path_error fs p = None"
  unfolding path_error_def by (rule walk_dirs) simp

lemma path_error_cong:
  "(\<And>q. strict_prefix q p \<Longrightarrow> fs' q = fs q) \<Longrightarrow> path_error fs' p = path_error fs p"
  unfolding path_error_def by (rule walk_cong) simp

lemma path_error_upd: "path_error (fs(p \<mapsto> e)) p = path_error fs p"
  by (rule path_error_cong) (auto simp: strict_prefix_def)

lemma path_error_wf: "wf_fs fs \<Longrightarrow> fs p \<noteq> None \<Longrightarrow> path_error fs p = None"
  by (rule path_error_dirs) (auto simp: wf_fs_def)

lemma strict_prefix_snoc: "strict_prefix q (d @ [c]) \<longleftrightarrow> prefix q d"
  by (auto simp: strict_prefix_def prefix_snoc)

lemma path_error_child:
  assumes "wf_fs fs" "fs d = Some Dir"
  shows "path_error fs (d @ [c]) = None"
proof (rule path_error_dirs)
  fix q assume "strict_prefix q (d @ [c])"
  then have "prefix q d" by (simp add: strict_prefix_snoc)
  then have "q = d \<or> strict_prefix q d" by (auto simp: strict_prefix_def)
  with assms show "fs q = Some Dir" by (auto simp: wf_fs_def)
qed

lemma path_error_file:
  assumes "wf_fs fs" "strict_prefix q p" "fs q = Some (File x)"
  shows "path_error fs p = Some NotADirectoryError"
  unfolding path_error_def
proof (rule walk_file[of q p fs "[]" x])
  show "strict_prefix q p" by fact
  show "fs ([] @ q) = Some (File x)" using assms(3) by simp
  fix r assume "strict_prefix r q"
  with assms(1,3) show "fs ([] @ r) = Some Dir" by (auto simp: wf_fs_def)
qed

lemma path_error_missing:
  assumes "strict_prefix r p" "fs r = None" "\<And>q x. strict_prefix q p \<Longrightarrow> fs q \<noteq> Some (File x)"
  shows "path_error fs p = Some FileNotFoundError"
  unfolding path_error_def
  by (rule walk_missing[of r p fs "[]"]) (use assms in simp_all)

lemma path_exists_wf: "wf_fs fs \<Longrightarrow> path_exists fs p \<longleftrightarrow> fs p \<noteq> None"
  by (auto simp: path_exists_def path_error_wf)

lemma path_error_fresh:
  assumes wf: "wf_fs fs" and fresh: "fs p = None" "fs (parent p) = Some Dir"
  shows "path_error fs p = None"
proof -
  from fresh have "p \<noteq> []" by (auto simp: parent_def)
  then obtain d a where p: "p = d @ [a]" by (cases p rule: rev_cases) auto
  with fresh(2) have "fs d = Some Dir" by (simp add: parent_def)
  from path_error_child[OF wf this, of a] p show ?thesis by simp
qed

lemma wf_ex_fs: "wf_fs ex_fs"
  by (auto simp: wf_fs_def ex_fs_def strict_prefix_def prefix_Cons split: if_splits)

lemma wf_ex_fs_log: "wf_fs (ex_fs(ex_log \<mapsto> File c))"
  by (auto simp: wf_fs_def ex_fs_def ex_log_def strict_prefix_def prefix_Cons split: if_splits)

subsection \<open>The step functions\<close>

lemma train_batches_sum:
  "snd (train_batches T lf sd mn m acc dl) = acc + sum_list (train_losses T lf sd mn m dl)"
  by (induction dl arbitrary: m acc) (auto simp: Let_def split: prod.splits)

lemma validate_batches_sum:
  "snd (validate_batches T lf sd mn m acc dl) = acc + sum_list (validate_losses T lf sd mn m dl)"
  by (induction dl arbitrary: m acc) (auto simp: Let_def split: prod.splits)

lemma length_train_losses: "length (train_losses T lf sd mn m dl) = length dl"
  by (induction dl arbitrary: m) (auto simp: Let_def split: prod.splits)

lemma length_validate_losses: "length (validate_losses T lf sd mn m dl) = length dl"
  by (induction dl arbitrary: m) (auto simp: Let_def split: prod.splits)

lemma train_one_step_empty: "train_one_step T m lf sd mn [] start stop = Inl ZeroDivisionError"
  by (simp add: train_one_step_def)

lemma validate_one_step_empty: "validate_one_step T m lf sd mn [] start stop = Inl ZeroDivisionError"
  by (simp add: validate_one_step_def)

lemma epoch_body_empty_train:
  "epoch_body T lft lfv sd mn [] vll outp chkp st e = Inl ZeroDivisionError"
  by (simp add: epoch_body_def train_one_step_empty)

lemma epoch_body_empty_val:
  "epoch_body T lft lfv sd mn trl [] outp chkp st e = Inl ZeroDivisionError"
proof (cases "train_one_step T (net_of st) lft sd mn trl (train_start T e) (train_stop T e)")
  case (Inl err)
  then have "trl = []"
    by (auto simp: train_one_step_def Let_def split: prod.splits if_splits)
  then show ?thesis by (simp add: epoch_body_empty_train)
next
  case (Inr r)
  then show ?thesis
    by (cases r) (simp add: epoch_body_def validate_one_step_empty)
qed

text \<open>
  C6. Over a dataloader that is not empty, both step functions return the sum of the
  losses of the batches divided by the number of batches, the length of the dataloader;
  there is one loss for every batch. (Floats are reals here, so the equation is exact.)
\<close>

theorem average_loss:
  assumes "dataloader \<noteq> []"
  shows "map_sum id (fst \<circ> snd) (train_one_step T model loss_function data_std data_mean dataloader start stop)
           = Inr (sum_list (train_losses T loss_function data_std data_mean (model\<lparr>training := True\<rparr>) dataloader)
                    / real (length dataloader))
       \<and> length (train_losses T loss_function data_std data_mean (model\<lparr>training := True\<rparr>) dataloader)
           = length dataloader
       \<and> map_sum id (fst \<circ> snd) (validate_one_step T model loss_function data_std data_mean dataloader start stop)
           = Inr (sum_list (validate_losses T loss_function data_std data_mean model dataloader)
                    / real (length dataloader))
       \<and> length (validate_losses T loss_function data_std data_mean model dataloader) = length dataloader"
  using assms train_batches_sum[of T loss_function data_std data_mean "model\<lparr>training := True\<rparr>" 0 dataloader]
    validate_batches_sum[of T loss_function data_std data_mean model 0 dataloader]
  by (auto simp: train_one_step_def validate_one_step_def Let_def length_train_losses
        length_validate_losses split: prod.splits)

text \<open>
  Two batches with the losses 1 and 3 (the labels are 2 and 6, the prediction is 3):
  the average is 2, in training and in validation.
\<close>

theorem average_loss_witness:
  "[(\<lparr>node_type = (), edge_attr = ()\<rparr>, 2::real, ()), (\<lparr>node_type = (), edge_attr = ()\<rparr>, 6, ())] \<noteq> []
   \<and> map_sum id (fst \<circ> snd)
        (train_one_step ex_torch (ex_net [3]) abs_err 1 0
           [(\<lparr>node_type = (), edge_attr = ()\<rparr>, 2, ()), (\<lparr>node_type = (), edge_attr = ()\<rparr>, 6, ())] 0 1)
       = Inr ((1 + 3) / 2)
   \<and> map_sum id (fst \<circ> snd)
        (validate_one_step ex_torch (ex_net [3]) abs_err 1 0
           [(\<lparr>node_type = (), edge_attr = ()\<rparr>, 2, ()), (\<lparr>node_type = (), edge_attr = ()\<rparr>, 6, ())] 0 1)
       = Inr ((1 + 3) / 2)"
  using average_loss[of "[(\<lparr>node_type = (), edge_attr = ()\<rparr>, 2::real, ()), (\<lparr>node_type = (), edge_attr = ()\<rparr>, 6, ())]"
      ex_torch "ex_net [3]" abs_err 1 0 0 1]
  by (simp add: step_defs ex_defs)

text \<open>
  C7. On a dataloader without batches both step functions raise ZeroDivisionError. Nothing
  catches it: the loop body raises it when either loader is empty, and so does the loop
  as soon as there is one epoch, so that a run of one epoch or more returns no result.
\<close>

theorem empty_dataloader_is_fatal:
  "train_one_step T model loss_function data_std data_mean [] start stop = Inl ZeroDivisionError
   \<and> validate_one_step T model loss_function data_std data_mean [] start stop = Inl ZeroDivisionError
   \<and> epoch_body T lft lfv data_std data_mean [] val_loader outp chkp st e = Inl ZeroDivisionError
   \<and> epoch_body T lft lfv data_std data_mean train_loader [] outp chkp st e = Inl ZeroDivisionError
   \<and> train_loop T lft lfv data_std data_mean [] val_loader outp chkp st (e # es) = Inl ZeroDivisionError
   \<and> train_loop T lft lfv data_std data_mean train_loader [] outp chkp st (e # es) = Inl ZeroDivisionError
   \<and> isl (train T self (int (Suc k)) lft lfv data_std data_mean [] val_loader logger_name path fs)
   \<and> isl (train T self (int (Suc k)) lft lfv data_std data_mean train_loader [] logger_name path fs)"
  by (simp add: train_one_step_empty validate_one_step_empty epoch_body_empty_train
        epoch_body_empty_val train_def run_epochs_def upt_rec[of 0] split: sum.splits)

subsection \<open>The writer\<close>

lemma length_close_str: "length close_str = 3"
  by (simp add: close_str_def)

lemma flush_empty: "buffer f = [] \<Longrightarrow> flush fs f = (fs, f)"
  by (simp add: flush_def)

lemma dump_general:
  "dump fs w obj =
     ((fst (flush fs (file' w)))
        (name (file' w) \<mapsto>
           File (write_at
                  (nat (max (int (length (contents (fst (flush fs (file' w))) (name (file' w)))) - 3) 0))
                  (delimeter w @ ''\<newline>    '' @ encoder w obj @ ''\<newline>]\<newline>'')
                  (contents (fst (flush fs (file' w))) (name (file' w))))),
      w\<lparr>file' :=
          \<lparr>name = name (file' w),
           pos = nat (max (int (length (contents (fst (flush fs (file' w))) (name (file' w)))) - 3) 0)
                 + length (delimeter w @ ''\<newline>    '' @ encoder w obj @ ''\<newline>]\<newline>''),
           buffer = []\<rparr>,
        delimeter := '',''\<rparr>)"
  unfolding dump_def seek_end_def seek_def fwrite_def Let_def close_str_def
  by (simp add: flush_def write_bytes_def)

text \<open>
  C4. \<open>dump\<close> on any file system, writer and object. With \<open>c\<close> the bytes of the
  writer's file (once what the file object still buffers is written), the JSON text of
  the object is \<open>encoder w obj\<close>, the cursor goes to \<open>max (length c - 3) 0\<close>, the
  delimiter, a line break, four spaces, the JSON text and the closing string are written
  there, nothing stays in the buffer, and the delimiter is the comma from then on.
\<close>

theorem dump_appends_record:
  fixes w :: "'r writer" and fs :: filesystem and obj :: 'r
  defines "p \<equiv> name (file' w)"
  defines "fs0 \<equiv> fst (flush fs (file' w))"
  defines "c \<equiv> contents fs0 p"
  defines "k \<equiv> nat (max (int (length c) - 3) 0)"
  defines "text \<equiv> delimeter w @ ''\<newline>    '' @ encoder w obj @ ''\<newline>]\<newline>''"
  shows "dump fs w obj =
           (fs0(p \<mapsto> File (write_at k text c)),
            w\<lparr>file' := \<lparr>name = p, pos = k + length text, buffer = []\<rparr>, delimeter := '',''\<rparr>)
         \<and> length close_str = 3
         \<and> delimeter (snd (dump (fst (dump fs w obj)) (snd (dump fs w obj)) obj')) = '',''"
  unfolding p_def fs0_def c_def k_def text_def
  by (simp add: dump_general[of fs w obj] length_close_str) (simp add: dump_def Let_def split: prod.splits)

text \<open>
  C5, amended. The constructor on any path of a well-formed file system with a root
  directory, in its five cases. A regular file is opened for reading and writing,
  untouched, and the next delimiter is the comma. A path that does not exist in an
  existing directory is created as an empty file, and the first delimiter is the
  bracket. Otherwise no writer is constructed: an existing directory raises
  IsADirectoryError, a missing path below a regular file raises NotADirectoryError, and a
  missing path whose parent is missing, with no regular file above it, raises
  FileNotFoundError.
\<close>

theorem init_opens_or_creates:
  assumes wf: "wf_fs fs" and root: "fs [] = Some Dir"
  shows "(fs p = Some (File c) \<longrightarrow>
      init fs p enc = Inr (fs, \<lparr>file' = \<lparr>name = p, pos = 0, buffer = []\<rparr>, delimeter = '','', encoder = enc\<rparr>))
 \<and> (fs p = None \<and> fs (parent p) = Some Dir \<longrightarrow>
      init fs p enc = Inr (fs(p \<mapsto> File []), \<lparr>file' = \<lparr>name = p, pos = 0, buffer = []\<rparr>, delimeter = ''['', encoder = enc\<rparr>))
 \<and> (fs p = Some Dir \<longrightarrow> init fs p enc = Inl IsADirectoryError)
 \<and> (fs p = None \<and> (\<exists>q x. strict_prefix q p \<and> fs q = Some (File x)) \<longrightarrow>
      init fs p enc = Inl NotADirectoryError)
 \<and> (fs p = None \<and> fs (parent p) = None \<and> \<not> (\<exists>q x. strict_prefix q p \<and> fs q = Some (File x)) \<longrightarrow>
      init fs p enc = Inl FileNotFoundError)"
proof (intro conjI impI)
  assume a: "fs p = Some (File c)"
  with wf have "path_error fs p = None" by (simp add: path_error_wf)
  with a show "init fs p enc
      = Inr (fs, \<lparr>file' = \<lparr>name = p, pos = 0, buffer = []\<rparr>, delimeter = '','', encoder = enc\<rparr>)"
    by (simp add: init_def path_exists_def open_file_def)
next
  assume a: "fs p = None \<and> fs (parent p) = Some Dir"
  then have "path_error fs p = None" by (simp add: path_error_fresh[OF wf])
  with a show "init fs p enc
      = Inr (fs(p \<mapsto> File []), \<lparr>file' = \<lparr>name = p, pos = 0, buffer = []\<rparr>, delimeter = ''['', encoder = enc\<rparr>)"
    by (simp add: init_def path_exists_def open_file_def)
next
  assume a: "fs p = Some Dir"
  with wf have "path_error fs p = None" by (simp add: path_error_wf)
  with a show "init fs p enc = Inl IsADirectoryError"
    by (simp add: init_def path_exists_def open_file_def)
next
  assume a: "fs p = None \<and> (\<exists>q x. strict_prefix q p \<and> fs q = Some (File x))"
  then obtain q x where "strict_prefix q p" "fs q = Some (File x)" by blast
  from path_error_file[OF wf this] show "init fs p enc = Inl NotADirectoryError"
    by (simp add: init_def path_exists_def open_file_def)
next
  assume a: "fs p = None \<and> fs (parent p) = None \<and> \<not> (\<exists>q x. strict_prefix q p \<and> fs q = Some (File x))"
  with root have "p \<noteq> []" by auto
  then have "strict_prefix (parent p) p"
    by (cases p rule: rev_cases) (auto simp: parent_def strict_prefix_def)
  moreover from a have "fs (parent p) = None" by simp
  moreover from a have "\<And>q x. strict_prefix q p \<Longrightarrow> fs q \<noteq> Some (File x)" by blast
  ultimately have "path_error fs p = Some FileNotFoundError"
    by (rule path_error_missing)
  then show "init fs p enc = Inl FileNotFoundError"
    by (simp add: init_def path_exists_def open_file_def)
qed

text \<open>
  The five cases on the example file system and on the one with a log file: the log is
  opened with the comma and created with the bracket, the directory \<^verbatim>\<open>/run\<close> raises
  IsADirectoryError, \<^verbatim>\<open>/run/log.json/x/y\<close> below the log file raises
  NotADirectoryError, and \<^verbatim>\<open>/tmp/log.json\<close> below the missing \<^verbatim>\<open>/tmp\<close> raises
  FileNotFoundError.
\<close>

theorem init_opens_or_creates_witness:
  "wf_fs ex_fs \<and> ex_fs [] = Some Dir
   \<and> wf_fs (ex_fs(ex_log \<mapsto> File ''[]'')) \<and> (ex_fs(ex_log \<mapsto> File ''[]'')) [] = Some Dir
   \<and> (ex_fs(ex_log \<mapsto> File ''[]'')) ex_log = Some (File ''[]'')
   \<and> init (ex_fs(ex_log \<mapsto> File ''[]'')) ex_log bool_enc
       = Inr (ex_fs(ex_log \<mapsto> File ''[]''),
              \<lparr>file' = \<lparr>name = ex_log, pos = 0, buffer = []\<rparr>, delimeter = '','', encoder = bool_enc\<rparr>)
   \<and> ex_fs ex_log = None \<and> ex_fs (parent ex_log) = Some Dir
   \<and> init ex_fs ex_log bool_enc
       = Inr (ex_fs(ex_log \<mapsto> File []),
              \<lparr>file' = \<lparr>name = ex_log, pos = 0, buffer = []\<rparr>, delimeter = ''['', encoder = bool_enc\<rparr>)
   \<and> ex_fs [''run''] = Some Dir
   \<and> init ex_fs [''run''] bool_enc = Inl IsADirectoryError
   \<and> (ex_fs(ex_log \<mapsto> File ''[]'')) (ex_log @ [''x'', ''y'']) = None
   \<and> strict_prefix ex_log (ex_log @ [''x'', ''y''])
   \<and> (ex_fs(ex_log \<mapsto> File ''[]'')) (parent (ex_log @ [''x'', ''y''])) = None
   \<and> init (ex_fs(ex_log \<mapsto> File ''[]'')) (ex_log @ [''x'', ''y'']) bool_enc = Inl NotADirectoryError
   \<and> ex_fs [''tmp'', ''log.json''] = None \<and> ex_fs (parent [''tmp'', ''log.json'']) = None
   \<and> \<not> (\<exists>q x. strict_prefix q [''tmp'', ''log.json''] \<and> ex_fs q = Some (File x))
   \<and> init ex_fs [''tmp'', ''log.json''] bool_enc = Inl FileNotFoundError"
proof -
  let ?g = "ex_fs(ex_log \<mapsto> File ''[]'')"
  have r: "ex_fs [] = Some Dir" "?g [] = Some Dir"
    by (simp_all add: ex_fs_def ex_log_def)
  have p1: "?g ex_log = Some (File ''[]'')"
    by simp
  have p2: "ex_fs ex_log = None \<and> ex_fs (parent ex_log) = Some Dir"
    by (simp add: ex_fs_def ex_log_def parent_def)
  have p3: "ex_fs [''run''] = Some Dir"
    by (simp add: ex_fs_def)
  have p4: "?g (ex_log @ [''x'', ''y'']) = None" "strict_prefix ex_log (ex_log @ [''x'', ''y''])"
    "?g (parent (ex_log @ [''x'', ''y''])) = None"
    by (simp_all add: ex_fs_def ex_log_def parent_def strict_prefix_def)
  have p5: "ex_fs [''tmp'', ''log.json''] = None \<and> ex_fs (parent [''tmp'', ''log.json'']) = None
      \<and> \<not> (\<exists>q x. strict_prefix q [''tmp'', ''log.json''] \<and> ex_fs q = Some (File x))"
    by (simp add: ex_fs_def parent_def)
  have 1: "init ?g ex_log bool_enc
       = Inr (?g, \<lparr>file' = \<lparr>name = ex_log, pos = 0, buffer = []\<rparr>, delimeter = '','', encoder = bool_enc\<rparr>)"
    using init_opens_or_creates[OF wf_ex_fs_log r(2), where p = ex_log and c = "''[]''" and enc = bool_enc] p1
    by blast
  have 2: "init ex_fs ex_log bool_enc
       = Inr (ex_fs(ex_log \<mapsto> File []),
              \<lparr>file' = \<lparr>name = ex_log, pos = 0, buffer = []\<rparr>, delimeter = ''['', encoder = bool_enc\<rparr>)"
    using init_opens_or_creates[OF wf_ex_fs r(1), where p = ex_log and c = "''[]''" and enc = bool_enc] p2
    by blast
  have 3: "init ex_fs [''run''] bool_enc = Inl IsADirectoryError"
    using init_opens_or_creates[OF wf_ex_fs r(1), where p = "[''run'']" and c = "''[]''" and enc = bool_enc] p3
    by blast
  have 4: "init ?g (ex_log @ [''x'', ''y'']) bool_enc = Inl NotADirectoryError"
    using init_opens_or_creates[OF wf_ex_fs_log r(2), where p = "ex_log @ [''x'', ''y'']" and c = "''[]''"
        and enc = bool_enc] p1 p4(1,2)
    by blast
  have 5: "init ex_fs [''tmp'', ''log.json''] bool_enc = Inl FileNotFoundError"
    using init_opens_or_creates[OF wf_ex_fs r(1), where p = "[''tmp'', ''log.json'']" and c = "''[]''"
        and enc = bool_enc] p5
    by blast
  show ?thesis
    by (intro conjI) (rule wf_ex_fs wf_ex_fs_log r p1 p2[THEN conjunct1] p2[THEN conjunct2] p3 p4
        p5[THEN conjunct1] p5[THEN conjunct2, THEN conjunct1] p5[THEN conjunct2, THEN conjunct2] 1 2 3 4 5)+
qed

text \<open>
  Against C5 as stated ("for every path"): \<^verbatim>\<open>/run\<close> exists, it is a directory, and
  the constructor raises IsADirectoryError instead of opening it with the comma.
\<close>

theorem init_on_directory_counterexample:
  "path_exists ex_fs [''run''] \<and> init ex_fs [''run''] bool_enc = Inl IsADirectoryError"
  by (simp add: init_def path_exists_def path_error_def open_file_def ex_fs_def)

subsection \<open>The file as a JSON array\<close>

lemma parse_empty: "parse_json_array dec [] = None"
  by (simp add: parse_json_array_def skip_ws_def)

lemma parse_comma: "parse_json_array dec (CHR '','' # s) = None"
  by (simp add: parse_json_array_def skip_ws_def is_ws_def)

lemma session_empty_fresh:
  assumes pe: "path_error fs p = None" and fresh: "fs p = None"
  shows "session fs p enc [] = Inr (fs(p \<mapsto> File []))"
  using assms by (simp add: session_def init_def path_exists_def open_file_def close_def flush_def)

lemma session_on_empty_file:
  assumes pe: "path_error fs p = None" and empty: "fs p = Some (File [])"
  shows "session fs p enc [r] = Inr (fs(p \<mapsto> File ('',\<newline>    '' @ enc r @ ''\<newline>]\<newline>'')))"
proof -
  let ?w = "\<lparr>file' = \<lparr>name = p, pos = 0, buffer = []\<rparr>, delimeter = '','', encoder = enc\<rparr>"
  have i: "init fs p enc = Inr (fs, ?w)"
    using assms by (simp add: init_def path_exists_def open_file_def)
  have d: "fst (dump fs ?w r) = fs(p \<mapsto> File ('',\<newline>    '' @ enc r @ ''\<newline>]\<newline>''))"
    "buffer (file' (snd (dump fs ?w r))) = []"
    using empty by (simp_all add: dump_general flush_def contents_def write_at_def)
  show ?thesis
    by (simp add: session_def i case_prod_beta close_def flush_def d)
qed

text \<open>
  C2. On a path that does not exist yet, in an existing directory of a well-formed file
  system: a writer that is constructed and closed without a dump leaves a file of no
  bytes, which is not a JSON array. The next writer on the path finds the file, takes
  the comma as its delimiter and seeks to \<^verbatim>\<open>max(0 - 3, 0) = 0\<close>, so that after its
  dump of \<open>r\<close> the file is a comma, the text of \<open>r\<close> and the closing bracket: it is
  not a JSON array either, whatever the decoder of the values, although an entry was
  dumped and the list closed after it.
\<close>

theorem resumed_empty_log_is_not_a_json_array:
  assumes wf: "wf_fs fs" and fresh: "fs p = None" "fs (parent p) = Some Dir"
  shows "session fs p enc [] = Inr (fs(p \<mapsto> File []))
       \<and> parse_json_array dec (contents (fs(p \<mapsto> File [])) p) = None
       \<and> sessions fs p enc [[], [r]] = Inr (fs(p \<mapsto> File ('',\<newline>    '' @ enc r @ ''\<newline>]\<newline>'')))
       \<and> parse_json_array dec (contents (fs(p \<mapsto> File ('',\<newline>    '' @ enc r @ ''\<newline>]\<newline>''))) p) = None"
proof -
  have pe: "path_error fs p = None"
    by (rule path_error_fresh[OF wf fresh])
  have s1: "session fs p enc [] = Inr (fs(p \<mapsto> File []))"
    by (rule session_empty_fresh[OF pe fresh(1)])
  have pe2: "path_error (fs(p \<mapsto> File [])) p = None"
    by (simp add: path_error_upd pe)
  have s2: "session (fs(p \<mapsto> File [])) p enc [r]
      = Inr ((fs(p \<mapsto> File []))(p \<mapsto> File ('',\<newline>    '' @ enc r @ ''\<newline>]\<newline>'')))"
    by (rule session_on_empty_file[OF pe2]) simp
  have s: "sessions fs p enc [[], [r]] = Inr (fs(p \<mapsto> File ('',\<newline>    '' @ enc r @ ''\<newline>]\<newline>'')))"
    by (simp add: s1 s2)
  have p1: "parse_json_array dec (contents (fs(p \<mapsto> File [])) p) = None"
    by (simp add: contents_def parse_empty)
  have p2: "parse_json_array dec (contents (fs(p \<mapsto> File ('',\<newline>    '' @ enc r @ ''\<newline>]\<newline>''))) p) = None"
    by (simp add: contents_def parse_comma)
  from s1 p1 s p2 show ?thesis by (intro conjI)
qed

text \<open>
  On \<^verbatim>\<open>/run/log.json\<close>: after a writer without a dump the file is empty, and after a
  second writer that dumps \<^verbatim>\<open>true\<close> it holds a comma, \<^verbatim>\<open>true\<close> and the closing
  bracket, and does not read as a JSON array.
\<close>

theorem resumed_empty_log_is_not_a_json_array_witness:
  "wf_fs ex_fs \<and> ex_fs ex_log = None \<and> ex_fs (parent ex_log) = Some Dir
   \<and> session ex_fs ex_log bool_enc [] = Inr (ex_fs(ex_log \<mapsto> File []))
   \<and> parse_json_array bool_dec (contents (ex_fs(ex_log \<mapsto> File [])) ex_log) = None
   \<and> sessions ex_fs ex_log bool_enc [[], [True]] = Inr (ex_fs(ex_log \<mapsto> File '',\<newline>    true\<newline>]\<newline>''))
   \<and> parse_json_array bool_dec (contents (ex_fs(ex_log \<mapsto> File '',\<newline>    true\<newline>]\<newline>'')) ex_log) = None"
proof -
  have a: "ex_fs ex_log = None" and b: "ex_fs (parent ex_log) = Some Dir"
    by (simp_all add: ex_fs_def ex_log_def parent_def)
  have e: "'',\<newline>    '' @ bool_enc True @ ''\<newline>]\<newline>'' = '',\<newline>    true\<newline>]\<newline>''"
    by (simp add: bool_enc_def)
  note t = resumed_empty_log_is_not_a_json_array[OF wf_ex_fs a b, where enc = bool_enc and dec = bool_dec
      and r = True, unfolded e]
  show ?thesis
    by (intro conjI) (rule wf_ex_fs a b t[THEN conjunct1] t[THEN conjunct2, THEN conjunct1]
        t[THEN conjunct2, THEN conjunct2, THEN conjunct1] t[THEN conjunct2, THEN conjunct2, THEN conjunct2])+
qed

text \<open>
  \<^verbatim>\<open>MEGNetTrainer.train\<close> reaches both states. A run of one epoch whose validation
  loss is 2000, not below 1000.0, dumps nothing and leaves the empty log; the next run
  in the same working directory, with the loss 0.5, dumps its record into that file.
\<close>

lemma train_leaves_an_empty_log:
  "map_sum id disk
     (train ex_torch (ex_net [2000]) 1 abs_err abs_err 1 0 [ex_batch] [ex_batch] ex_log [''run''] ex_fs)
   = Inr ex_disk"
  by (simp add: fs_defs writer_defs step_defs loop_defs ex_defs Let_def)

lemma train_resumes_the_empty_log:
  "map_sum id (\<lambda>st. contents (disk st) ex_log)
     (train ex_torch (ex_net [0.5]) 1 abs_err abs_err 1 0 [ex_batch] [ex_batch] ex_log [''run''] ex_disk)
   = Inr '',\<newline>    {}\<newline>]\<newline>''"
  by (simp add: fs_defs writer_defs step_defs loop_defs ex_defs Let_def)

subsection \<open>The losses of the two step functions\<close>

lemma train_batch_loss:
  "snd (train_batch T lf sd mn model (g, labels, attrs)) =
     lf (squeeze T (fst (forward T (training model) (zero_grad T (state model)) g
                           (edge_attr g) (node_type g) attrs)))
        ((labels - mn) / sd)"
  by (simp add: train_batch_def Let_def split: prod.splits)

lemma validate_batch_loss:
  "snd (validate_batch T lf sd mn model (g, labels, attrs)) =
     lf (mn + squeeze T (fst (forward T (training model) (state model) g
                                (edge_attr g) (node_type g) attrs)) * sd)
        labels"
  by (simp add: validate_batch_def Let_def split: prod.splits)

text \<open>
  C3. The loss of a training batch compares the squeezed prediction with
  \<open>(labels - data_mean) / data_std\<close>; the loss of a validation batch compares
  \<open>data_mean + pred * data_std\<close> with the labels. So does what the step functions return
  for a dataloader of one batch. The two differ on the same prediction and label: with
  the squared error, prediction 1, label 1, mean 0 and deviation 2, the training loss is
  1/4 and the validation loss 1.
\<close>

theorem train_loss_normalised_validation_loss_denormalised:
  "snd (train_batch T lf sd mn model (g, labels, attrs)) =
     lf (squeeze T (fst (forward T (training model) (zero_grad T (state model)) g
                           (edge_attr g) (node_type g) attrs)))
        ((labels - mn) / sd)
   \<and> snd (validate_batch T lf sd mn model (g, labels, attrs)) =
     lf (mn + squeeze T (fst (forward T (training model) (state model) g
                                (edge_attr g) (node_type g) attrs)) * sd)
        labels
   \<and> map_sum id (fst \<circ> snd) (train_one_step T model lf sd mn [(g, labels, attrs)] start stop) =
     Inr (lf (squeeze T (fst (forward T True (zero_grad T (state model)) g
                                (edge_attr g) (node_type g) attrs)))
             ((labels - mn) / sd))
   \<and> map_sum id (fst \<circ> snd) (validate_one_step T model lf sd mn [(g, labels, attrs)] start stop) =
     Inr (lf (mn + squeeze T (fst (forward T (training model) (state model) g
                                     (edge_attr g) (node_type g) attrs)) * sd)
             labels)
   \<and> snd (train_batch ex_torch sq_err 2 0 (ex_net [1]) (\<lparr>node_type = (), edge_attr = ()\<rparr>, 1, ())) = 1 / 4
   \<and> snd (validate_batch ex_torch sq_err 2 0 (ex_net [1]) (\<lparr>node_type = (), edge_attr = ()\<rparr>, 1, ())) = 1"
  by (simp add: train_batch_loss validate_batch_loss train_one_step_def validate_one_step_def
        Let_def case_prod_beta ex_torch_def ex_net_def sq_err_def)

subsection \<open>The training flag\<close>

lemma training_train_batch: "training (fst (train_batch T lf sd mn m b)) = training m"
  by (simp add: train_batch_def Let_def split: prod.splits)

lemma training_validate_batch: "training (fst (validate_batch T lf sd mn m b)) = training m"
  by (simp add: validate_batch_def Let_def split: prod.splits)

lemma training_train_batches: "training (fst (train_batches T lf sd mn m acc dl)) = training m"
  by (induction dl arbitrary: m acc) (simp_all add: case_prod_beta training_train_batch)

lemma training_validate_batches: "training (fst (validate_batches T lf sd mn m acc dl)) = training m"
  by (induction dl arbitrary: m acc) (simp_all add: case_prod_beta training_validate_batch)

lemma validate_batch_forward:
  "training m \<Longrightarrow>
   validate_batch (T\<lparr>forward := \<lambda>tr. forward T True\<rparr>) lf sd mn m b = validate_batch T lf sd mn m b"
  by (simp add: validate_batch_def)

lemma validate_batches_forward:
  "training m \<Longrightarrow>
   validate_batches (T\<lparr>forward := \<lambda>tr. forward T True\<rparr>) lf sd mn m acc dl
     = validate_batches T lf sd mn m acc dl"
proof (induction dl arbitrary: m acc)
  case Nil
  then show ?case by simp
next
  case (Cons b dl)
  have "training (fst (validate_batch T lf sd mn m b))"
    using Cons.prems by (simp add: training_validate_batch)
  from Cons.IH[OF this] Cons.prems show ?case
    by (simp add: validate_batch_forward case_prod_beta)
qed

lemma train_one_step_training:
  "train_one_step T m lf sd mn dl start stop = Inr (m', avg, t) \<Longrightarrow> training m'"
  using training_train_batches[of T lf sd mn "m\<lparr>training := True\<rparr>" 0 dl]
  by (auto simp: train_one_step_def Let_def split: prod.splits if_splits)

lemma validate_one_step_training:
  "validate_one_step T m lf sd mn dl start stop = Inr (m', avg, t) \<Longrightarrow> training m' = training m"
  using training_validate_batches[of T lf sd mn m 0 dl]
  by (auto simp: validate_one_step_def Let_def split: prod.splits if_splits)

text \<open>
  C10. \<open>validate_one_step\<close> returns the model with the training flag it was given, and
  in the loop body it is given the model \<open>train_one_step\<close> returns, whose flag is set:
  the flag is set after every epoch, and validation computes what it would compute were
  every forward call made in training mode.
\<close>

theorem validation_keeps_training_mode:
  "(validate_one_step T model lf sd mn dl start stop = Inr (model', avg, t) \<longrightarrow>
      training model' = training model)
   \<and> (train_one_step T model lf sd mn dl start stop = Inr (model', avg, t) \<longrightarrow> training model')
   \<and> (training model \<longrightarrow>
        validate_one_step (T\<lparr>forward := \<lambda>tr. forward T True\<rparr>) model lf sd mn dl start stop
          = validate_one_step T model lf sd mn dl start stop)
   \<and> (epoch_body T lft lfv sd mn trl vll outp chkp st e = Inr st' \<longrightarrow> training (net_of st'))"
proof (intro conjI impI)
  assume "validate_one_step T model lf sd mn dl start stop = Inr (model', avg, t)"
  then show "training model' = training model" by (rule validate_one_step_training)
next
  assume "train_one_step T model lf sd mn dl start stop = Inr (model', avg, t)"
  then show "training model'" by (rule train_one_step_training)
next
  assume "training model"
  then show "validate_one_step (T\<lparr>forward := \<lambda>tr. forward T True\<rparr>) model lf sd mn dl start stop
          = validate_one_step T model lf sd mn dl start stop"
    by (simp add: validate_one_step_def validate_batches_forward)
next
  assume b: "epoch_body T lft lfv sd mn trl vll outp chkp st e = Inr st'"
  then obtain m1 tl tt where
    t: "train_one_step T (net_of st) lft sd mn trl (train_start T e) (train_stop T e) = Inr (m1, tl, tt)"
    by (cases "train_one_step T (net_of st) lft sd mn trl (train_start T e) (train_stop T e)")
       (auto simp: epoch_body_def)
  from b t obtain m2 vl vt where
    v: "validate_one_step T m1 lfv sd mn vll (val_start T e) (val_stop T e) = Inr (m2, vl, vt)"
    by (cases "validate_one_step T m1 lfv sd mn vll (val_start T e) (val_stop T e)")
       (auto simp: epoch_body_def)
  have "training m2"
    using train_one_step_training[OF t] validate_one_step_training[OF v] by simp
  with b show "training (net_of st')"
    by (auto simp: epoch_body_def t v Let_def split: sum.splits prod.splits if_splits)
qed

text \<open>
  A model in evaluation mode: validation alone leaves it there, training sets the flag,
  validation after training computes in training mode, and the flag is set after an
  epoch of the loop.
\<close>

theorem validation_keeps_training_mode_witness:
  "validate_one_step ex_torch (ex_net [3]) abs_err 1 0 [ex_batch] 0 1
     = Inr (\<lparr>training = False, state = [3]\<rparr>, 3, 1)
   \<and> training \<lparr>training = False, state = [3::real]\<rparr> = training (ex_net [3])
   \<and> train_one_step ex_torch (ex_net [3]) abs_err 1 0 [ex_batch] 0 1
     = Inr (\<lparr>training = True, state = [3]\<rparr>, 3, 1)
   \<and> training \<lparr>training = True, state = [3::real]\<rparr>
   \<and> validate_one_step (ex_torch\<lparr>forward := \<lambda>tr. forward ex_torch True\<rparr>)
        \<lparr>training = True, state = [3]\<rparr> abs_err 1 0 [ex_batch] 0 1
     = validate_one_step ex_torch \<lparr>training = True, state = [3]\<rparr> abs_err 1 0 [ex_batch] 0 1
   \<and> (\<exists>st'. epoch_body ex_torch abs_err abs_err 1 0 [ex_batch] [ex_batch]
               [''run'', ''BestModel''] [''run'', ''CheckPoints''] (ex_state [3]) 0 = Inr st'
             \<and> training (net_of st'))"
proof -
  have v: "validate_one_step ex_torch (ex_net [3]) abs_err 1 0 [ex_batch] 0 1
     = Inr (\<lparr>training = False, state = [3]\<rparr>, 3, 1)"
    by (simp add: step_defs ex_defs)
  have t: "train_one_step ex_torch (ex_net [3]) abs_err 1 0 [ex_batch] 0 1
     = Inr (\<lparr>training = True, state = [3]\<rparr>, 3, 1)"
    by (simp add: step_defs ex_defs)
  have e: "\<exists>st'. epoch_body ex_torch abs_err abs_err 1 0 [ex_batch] [ex_batch]
               [''run'', ''BestModel''] [''run'', ''CheckPoints''] (ex_state [3]) 0 = Inr st'"
    by (simp add: fs_defs writer_defs step_defs loop_defs ex_defs Let_def)
  then obtain st' where e': "epoch_body ex_torch abs_err abs_err 1 0 [ex_batch] [ex_batch]
               [''run'', ''BestModel''] [''run'', ''CheckPoints''] (ex_state [3]) 0 = Inr st'" ..
  have tr: "training \<lparr>training = True, state = [3::real]\<rparr>" by simp
  note inst1 = validation_keeps_training_mode[of ex_torch "ex_net [3]" abs_err 1 0 "[ex_batch]" 0 1
      "\<lparr>training = False, state = [3]\<rparr>" 3 1 abs_err abs_err "[ex_batch]" "[ex_batch]"
      "[''run'', ''BestModel'']" "[''run'', ''CheckPoints'']" "ex_state [3]" 0 st']
  note inst2 = validation_keeps_training_mode[of ex_torch "ex_net [3]" abs_err 1 0 "[ex_batch]" 0 1
      "\<lparr>training = True, state = [3]\<rparr>" 3 1 abs_err abs_err "[ex_batch]" "[ex_batch]"
      "[''run'', ''BestModel'']" "[''run'', ''CheckPoints'']" "ex_state [3]" 0 st']
  note inst3 = validation_keeps_training_mode[of ex_torch "\<lparr>training = True, state = [3]\<rparr>" abs_err 1 0
      "[ex_batch]" 0 1 "\<lparr>training = True, state = [3]\<rparr>" 3 1 abs_err abs_err "[ex_batch]" "[ex_batch]"
      "[''run'', ''BestModel'']" "[''run'', ''CheckPoints'']" "ex_state [3]" 0 st']
  from inst1 v have c1: "training \<lparr>training = False, state = [3::real]\<rparr> = training (ex_net [3])" by blast
  from inst2 t have c2: "training \<lparr>training = True, state = [3::real]\<rparr>" by blast
  from inst3 tr have c3: "validate_one_step (ex_torch\<lparr>forward := \<lambda>tr. forward ex_torch True\<rparr>)
        \<lparr>training = True, state = [3]\<rparr> abs_err 1 0 [ex_batch] 0 1
     = validate_one_step ex_torch \<lparr>training = True, state = [3]\<rparr> abs_err 1 0 [ex_batch] 0 1" by blast
  from inst1 e' have c4: "training (net_of st')" by blast
  from v t c1 c2 c3 c4 e' show ?thesis by blast
qed

subsection \<open>The directories of a run\<close>

lemma path_error_child_cong:
  assumes wf: "wf_fs fs" and d: "fs d = Some Dir" and same: "\<And>q. prefix q d \<Longrightarrow> g q = fs q"
  shows "path_error g (d @ [c]) = None"
proof -
  have "path_error g (d @ [c]) = path_error fs (d @ [c])"
    by (rule path_error_cong) (simp add: strict_prefix_snoc same)
  then show ?thesis by (simp add: path_error_child[OF wf d])
qed

lemma wf_no_orphans: "wf_fs fs \<Longrightarrow> fs p = None \<Longrightarrow> strict_prefix p q \<Longrightarrow> fs q = None"
  unfolding wf_fs_def by (metis option.distinct(1))

lemma not_prefix_parent: "\<not> prefix (p @ [a]) p"
  by (auto simp: prefix_def)

lemma not_prefix_above:
  assumes "prefix q p"
  shows "\<not> prefix (p @ [a]) q"
proof
  assume "prefix (p @ [a]) q"
  from this assms have "prefix (p @ [a]) p" by (rule prefix_order.trans)
  then show False by (simp add: not_prefix_parent)
qed

lemma reset_dirs_result:
  assumes wf: "wf_fs fs" and cwd: "fs path = Some Dir"
    and o: "fs (path @ [''BestModel'']) = None \<or> fs (path @ [''BestModel'']) = Some Dir"
    and c: "fs (path @ [''CheckPoints'']) = None \<or> fs (path @ [''CheckPoints'']) = Some Dir"
  shows "reset_dirs fs path =
           Inr (\<lambda>q. if q = path @ [''BestModel''] \<or> q = path @ [''CheckPoints''] then Some Dir
                    else if prefix (path @ [''BestModel'']) q \<or> prefix (path @ [''CheckPoints'']) q then None
                    else fs q)"
proof -
  define out where "out = path @ [''BestModel'']"
  define chk where "chk = path @ [''CheckPoints'']"
  define fs1 where "fs1 = (\<lambda>q. if prefix out q then None else fs q)"
  define fs2 where "fs2 = fs1(out \<mapsto> Dir)"
  define fs3 where "fs3 = (\<lambda>q. if prefix chk q then None else fs2 q)"
  have orph_o: "fs out = None \<Longrightarrow> prefix out q \<Longrightarrow> fs q = None" for q
    using wf_no_orphans[OF wf, of out q] by (cases "q = out") (auto simp: strict_prefix_def)
  have orph_c: "fs chk = None \<Longrightarrow> prefix chk q \<Longrightarrow> fs q = None" for q
    using wf_no_orphans[OF wf, of chk q] by (cases "q = chk") (auto simp: strict_prefix_def)
  have np: "\<not> prefix out chk" "\<not> prefix chk out" "out \<noteq> chk"
    by (simp_all add: out_def chk_def)
  have above: "prefix q path \<Longrightarrow> \<not> prefix out q \<and> \<not> prefix chk q \<and> q \<noteq> out \<and> q \<noteq> chk" for q
    using not_prefix_above[of q path] by (auto simp: out_def chk_def)
  have pe: "path_error g out = None \<and> path_error g chk = None" if "\<And>q. prefix q path \<Longrightarrow> g q = fs q" for g
    unfolding out_def chk_def using path_error_child_cong[OF wf cwd that] by simp
  have pe0: "path_error fs out = None" "path_error fs chk = None"
    using pe[of fs] by simp_all
  have pe1: "path_error fs1 out = None"
    using pe[of fs1] above by (simp add: fs1_def)
  have pe2: "path_error fs2 chk = None"
    using pe[of fs2] above by (simp add: fs2_def fs1_def)
  have pe3: "path_error fs3 chk = None"
    using pe[of fs3] above by (simp add: fs3_def fs2_def fs1_def)
  have s1: "(if path_exists fs out then rmtree fs out else Inr fs) = Inr fs1"
  proof (cases "fs out = None")
    case True
    then have "fs1 = fs" by (auto simp: fs1_def fun_eq_iff orph_o)
    with True show ?thesis by (simp add: path_exists_def)
  next
    case False
    with o have "fs out = Some Dir" by (auto simp: out_def)
    then show ?thesis by (simp add: path_exists_def rmtree_def pe0 fs1_def)
  qed
  have s2: "mkdir fs1 out = Inr fs2"
    by (simp add: mkdir_def pe1 fs2_def) (simp add: fs1_def)
  have c2: "fs2 chk = fs chk"
    using np by (simp add: fs2_def fs1_def)
  have s3: "(if path_exists fs2 chk then rmtree fs2 chk else Inr fs2) = Inr fs3"
  proof (cases "fs chk = None")
    case True
    have "fs3 q = fs2 q" for q
    proof (cases "prefix chk q")
      case True
      with np have "q \<noteq> out" by auto
      with True \<open>fs chk = None\<close> show ?thesis
        by (simp add: fs3_def fs2_def fs1_def orph_c)
    next
      case False
      then show ?thesis by (simp add: fs3_def)
    qed
    then have "fs3 = fs2" by (simp add: fun_eq_iff)
    with True c2 show ?thesis by (simp add: path_exists_def)
  next
    case False
    with c have "fs chk = Some Dir" by (auto simp: chk_def)
    with c2 show ?thesis by (simp add: path_exists_def rmtree_def pe2 fs3_def)
  qed
  have s4: "mkdir fs3 chk = Inr (fs3(chk \<mapsto> Dir))"
    by (simp add: mkdir_def pe3) (simp add: fs3_def)
  have final: "fs3(chk \<mapsto> Dir) =
      (\<lambda>q. if q = out \<or> q = chk then Some Dir else if prefix out q \<or> prefix chk q then None else fs q)"
    using np by (auto simp: fun_eq_iff fs3_def fs2_def fs1_def)
  have unfold: "reset_dirs fs path =
      (case (if path_exists fs out then rmtree fs out else Inr fs) of
         Inl e \<Rightarrow> Inl e
       | Inr g1 \<Rightarrow>
      (case mkdir g1 out of
         Inl e \<Rightarrow> Inl e
       | Inr g2 \<Rightarrow>
      (case (if path_exists g2 chk then rmtree g2 chk else Inr g2) of
         Inl e \<Rightarrow> Inl e
       | Inr g3 \<Rightarrow> mkdir g3 chk)))"
    unfolding reset_dirs_def Let_def out_def chk_def ..
  have "reset_dirs fs path = Inr (fs3(chk \<mapsto> Dir))"
    by (simp only: unfold s1 s2 s3 s4 sum.case)
  then have "reset_dirs fs path =
      Inr (\<lambda>q. if q = out \<or> q = chk then Some Dir else if prefix out q \<or> prefix chk q then None else fs q)"
    by (simp only: final)
  then show ?thesis
    unfolding out_def chk_def .
qed

lemma reset_dirs_file:
  assumes wf: "wf_fs fs" and cwd: "fs path = Some Dir"
    and bad: "fs (path @ [''BestModel'']) = Some (File x) \<or>
              (fs (path @ [''BestModel'']) = None \<or> fs (path @ [''BestModel'']) = Some Dir) \<and>
              fs (path @ [''CheckPoints'']) = Some (File y)"
  shows "reset_dirs fs path = Inl NotADirectoryError"
proof -
  define out where "out = path @ [''BestModel'']"
  define chk where "chk = path @ [''CheckPoints'']"
  define fs1 where "fs1 = (\<lambda>q. if prefix out q then None else fs q)"
  define fs2 where "fs2 = fs1(out \<mapsto> Dir)"
  have orph_o: "fs out = None \<Longrightarrow> prefix out q \<Longrightarrow> fs q = None" for q
    using wf_no_orphans[OF wf, of out q] by (cases "q = out") (auto simp: strict_prefix_def)
  have np: "\<not> prefix out chk" "\<not> prefix chk out" "out \<noteq> chk"
    by (simp_all add: out_def chk_def)
  have above: "prefix q path \<Longrightarrow> \<not> prefix out q \<and> \<not> prefix chk q \<and> q \<noteq> out \<and> q \<noteq> chk" for q
    using not_prefix_above[of q path] by (auto simp: out_def chk_def)
  have pe: "path_error g out = None \<and> path_error g chk = None" if "\<And>q. prefix q path \<Longrightarrow> g q = fs q" for g
    unfolding out_def chk_def using path_error_child_cong[OF wf cwd that] by simp
  have pe0: "path_error fs out = None" using pe[of fs] by simp
  have pe1: "path_error fs1 out = None" using pe[of fs1] above by (simp add: fs1_def)
  have pe2: "path_error fs2 chk = None" using pe[of fs2] above by (simp add: fs2_def fs1_def)
  have unfold: "reset_dirs fs path =
      (case (if path_exists fs out then rmtree fs out else Inr fs) of
         Inl e \<Rightarrow> Inl e
       | Inr g1 \<Rightarrow>
      (case mkdir g1 out of
         Inl e \<Rightarrow> Inl e
       | Inr g2 \<Rightarrow>
      (case (if path_exists g2 chk then rmtree g2 chk else Inr g2) of
         Inl e \<Rightarrow> Inl e
       | Inr g3 \<Rightarrow> mkdir g3 chk)))"
    unfolding reset_dirs_def Let_def out_def chk_def ..
  from bad show ?thesis
  proof
    assume "fs (path @ [''BestModel'']) = Some (File x)"
    then have fo: "fs out = Some (File x)" by (simp add: out_def)
    have "(if path_exists fs out then rmtree fs out else Inr fs) = Inl NotADirectoryError"
      by (simp add: path_exists_def rmtree_def pe0 fo)
    then show ?thesis
      by (simp only: unfold sum.case)
  next
    assume a: "(fs (path @ [''BestModel'']) = None \<or> fs (path @ [''BestModel'']) = Some Dir) \<and>
              fs (path @ [''CheckPoints'']) = Some (File y)"
    then have o: "fs out = None \<or> fs out = Some Dir" and c: "fs chk = Some (File y)"
      by (simp_all add: out_def chk_def)
    have s1: "(if path_exists fs out then rmtree fs out else Inr fs) = Inr fs1"
    proof (cases "fs out = None")
      case True
      then have "fs1 = fs" by (auto simp: fs1_def fun_eq_iff orph_o)
      with True show ?thesis by (simp add: path_exists_def)
    next
      case False
      with o have "fs out = Some Dir" by simp
      then show ?thesis by (simp add: path_exists_def rmtree_def pe0 fs1_def)
    qed
    have s2: "mkdir fs1 out = Inr fs2"
      by (simp add: mkdir_def pe1 fs2_def) (simp add: fs1_def)
    have c2: "fs2 chk = Some (File y)"
      using np c by (simp add: fs2_def fs1_def)
    have "(if path_exists fs2 chk then rmtree fs2 chk else Inr fs2) = Inl NotADirectoryError"
      by (simp add: path_exists_def rmtree_def pe2 c2)
    then show ?thesis
      by (simp only: unfold s1 s2 sum.case)
  qed
qed

text \<open>
  C8, amended. On a well-formed file system whose working directory exists: when each
  of \<^verbatim>\<open>BestModel\<close> and \<^verbatim>\<open>CheckPoints\<close> is either missing or a directory, the reset
  succeeds and the rest of \<open>train\<close> (the writer and the epochs) starts on its result,
  where both paths are directories, nothing exists below either, and every path outside
  them is as it was; when one of the two is a regular file, \<open>train\<close> raises
  NotADirectoryError before the first epoch.
\<close>

theorem reset_dirs_clean:
  assumes wf: "wf_fs fs" and cwd: "fs path = Some Dir"
  shows "if (fs (path @ [''BestModel'']) = None \<or> fs (path @ [''BestModel'']) = Some Dir) \<and>
            (fs (path @ [''CheckPoints'']) = None \<or> fs (path @ [''CheckPoints'']) = Some Dir)
         then \<exists>fs1. reset_dirs fs path = Inr fs1
            \<and> train T self n lft lfv sd mn trl vll logger_name path fs
                = run_epochs T self n lft lfv sd mn trl vll logger_name
                    (path @ [''BestModel'']) (path @ [''CheckPoints'']) fs1
            \<and> fs1 (path @ [''BestModel'']) = Some Dir \<and> fs1 (path @ [''CheckPoints'']) = Some Dir
            \<and> (\<forall>q. strict_prefix (path @ [''BestModel'']) q \<or> strict_prefix (path @ [''CheckPoints'']) q
                    \<longrightarrow> fs1 q = None)
            \<and> (\<forall>q. \<not> prefix (path @ [''BestModel'']) q \<and> \<not> prefix (path @ [''CheckPoints'']) q
                    \<longrightarrow> fs1 q = fs q)
         else train T self n lft lfv sd mn trl vll logger_name path fs = Inl NotADirectoryError"
proof (cases "(fs (path @ [''BestModel'']) = None \<or> fs (path @ [''BestModel'']) = Some Dir) \<and>
            (fs (path @ [''CheckPoints'']) = None \<or> fs (path @ [''CheckPoints'']) = Some Dir)")
  case True
  then have o: "fs (path @ [''BestModel'']) = None \<or> fs (path @ [''BestModel'']) = Some Dir"
    and c: "fs (path @ [''CheckPoints'']) = None \<or> fs (path @ [''CheckPoints'']) = Some Dir"
    by blast+
  show ?thesis
    by (simp only: True if_True) (simp add: reset_dirs_result[OF wf cwd o c] train_def strict_prefix_def)
next
  case False
  then have "(\<exists>x. fs (path @ [''BestModel'']) = Some (File x)) \<or>
              (fs (path @ [''BestModel'']) = None \<or> fs (path @ [''BestModel'']) = Some Dir) \<and>
              (\<exists>y. fs (path @ [''CheckPoints'']) = Some (File y))"
    by (metis entry.exhaust option.exhaust)
  then obtain x y where "fs (path @ [''BestModel'']) = Some (File x) \<or>
              (fs (path @ [''BestModel'']) = None \<or> fs (path @ [''BestModel'']) = Some Dir) \<and>
              fs (path @ [''CheckPoints'']) = Some (File y)"
    by blast
  from reset_dirs_file[OF wf cwd this] show ?thesis
    by (simp only: False if_False) (simp add: train_def)
qed

lemma wf_ex_stale: "wf_fs ex_stale"
  by (auto simp: wf_fs_def ex_stale_def ex_fs_def strict_prefix_def prefix_Cons split: if_splits)

lemma wf_ex_blocked: "wf_fs ex_blocked"
  by (auto simp: wf_fs_def ex_blocked_def ex_fs_def strict_prefix_def prefix_Cons split: if_splits)

text \<open>
  The working directory \<^verbatim>\<open>/run\<close> with a model and a checkpoint of an earlier run:
  after the reset both directories exist and neither file does. And with a regular file
  \<^verbatim>\<open>BestModel\<close>: the run raises.
\<close>

theorem reset_dirs_clean_witness:
  "wf_fs ex_stale \<and> ex_stale [''run''] = Some Dir
   \<and> ex_stale [''run'', ''BestModel'', ''best-model.pt''] = Some (File ''old'')
   \<and> ex_stale [''run'', ''CheckPoints'', ''00001-0.50000.pt''] = Some (File ''old'')
   \<and> (\<exists>fs1. reset_dirs ex_stale [''run''] = Inr fs1
         \<and> fs1 [''run'', ''BestModel''] = Some Dir \<and> fs1 [''run'', ''CheckPoints''] = Some Dir
         \<and> fs1 [''run'', ''BestModel'', ''best-model.pt''] = None
         \<and> fs1 [''run'', ''CheckPoints'', ''00001-0.50000.pt''] = None
         \<and> fs1 [''run''] = Some Dir)
   \<and> wf_fs ex_blocked \<and> ex_blocked [''run''] = Some Dir
   \<and> ex_blocked [''run'', ''BestModel''] = Some (File ''notes'')
   \<and> train ex_torch (ex_net []) 0 abs_err abs_err 1 0 [] [] ex_log [''run''] ex_blocked
       = Inl NotADirectoryError"
proof -
  have h: "ex_stale [''run''] = Some Dir"
    "(ex_stale ([''run''] @ [''BestModel'']) = None \<or> ex_stale ([''run''] @ [''BestModel'']) = Some Dir) \<and>
     (ex_stale ([''run''] @ [''CheckPoints'']) = None \<or> ex_stale ([''run''] @ [''CheckPoints'']) = Some Dir)"
    by (simp_all add: ex_stale_def ex_fs_def)
  have f: "ex_stale [''run'', ''BestModel'', ''best-model.pt''] = Some (File ''old'')"
    "ex_stale [''run'', ''CheckPoints'', ''00001-0.50000.pt''] = Some (File ''old'')"
    by (simp_all add: ex_stale_def ex_fs_def)
  note inst = reset_dirs_clean[OF wf_ex_stale h(1), of ex_torch "ex_net []" 0 abs_err abs_err 1 0 "[]" "[]" ex_log]
  from inst h(2) obtain fs1 where r: "reset_dirs ex_stale [''run''] = Inr fs1"
    and d: "fs1 ([''run''] @ [''BestModel'']) = Some Dir" "fs1 ([''run''] @ [''CheckPoints'']) = Some Dir"
    and below: "\<forall>q. strict_prefix ([''run''] @ [''BestModel'']) q \<or> strict_prefix ([''run''] @ [''CheckPoints'']) q
              \<longrightarrow> fs1 q = None"
    and outside: "\<forall>q. \<not> prefix ([''run''] @ [''BestModel'']) q \<and> \<not> prefix ([''run''] @ [''CheckPoints'']) q
              \<longrightarrow> fs1 q = ex_stale q"
    by (simp only: if_True simp_thms) blast
  from below have b1: "fs1 [''run'', ''BestModel'', ''best-model.pt''] = None"
    by (simp add: strict_prefix_def)
  from below have b2: "fs1 [''run'', ''CheckPoints'', ''00001-0.50000.pt''] = None"
    by (simp add: strict_prefix_def)
  from outside have b3: "fs1 [''run''] = Some Dir"
    by (simp add: h(1))
  have g: "ex_blocked [''run''] = Some Dir" "ex_blocked [''run'', ''BestModel''] = Some (File ''notes'')"
    "\<not> ((ex_blocked ([''run''] @ [''BestModel'']) = None \<or> ex_blocked ([''run''] @ [''BestModel'']) = Some Dir) \<and>
     (ex_blocked ([''run''] @ [''CheckPoints'']) = None \<or> ex_blocked ([''run''] @ [''CheckPoints'']) = Some Dir))"
    by (simp_all add: ex_blocked_def ex_fs_def)
  note inst2 = reset_dirs_clean[OF wf_ex_blocked g(1), of ex_torch "ex_net []" 0 abs_err abs_err 1 0 "[]" "[]" ex_log]
  from inst2 g(3) have e: "train ex_torch (ex_net []) 0 abs_err abs_err 1 0 [] [] ex_log [''run''] ex_blocked
       = Inl NotADirectoryError"
    by (simp only: if_False simp_thms)
  from r d b1 b2 b3 wf_ex_stale h(1) f wf_ex_blocked g(1,2) e show ?thesis by simp
qed

text \<open>
  Against C8 as stated ("for every prior filesystem state"): when \<^verbatim>\<open>BestModel\<close> is a
  regular file, \<^verbatim>\<open>os.path.exists\<close> holds, \<^verbatim>\<open>shutil.rmtree\<close> raises
  NotADirectoryError, no directory is made and the run ends before the first epoch.
\<close>

theorem reset_dirs_on_file_counterexample:
  "wf_fs ex_blocked \<and> path_exists ex_blocked [''run'', ''BestModel'']
   \<and> reset_dirs ex_blocked [''run''] = Inl NotADirectoryError
   \<and> train ex_torch (ex_net [0.5]) 1 abs_err abs_err 1 0 [ex_batch] [ex_batch] ex_log [''run''] ex_blocked
       = Inl NotADirectoryError"
proof -
  have "path_exists ex_blocked [''run'', ''BestModel'']"
    by (simp add: path_exists_def path_error_def ex_blocked_def ex_fs_def)
  moreover have "reset_dirs ex_blocked [''run''] = Inl NotADirectoryError"
    by (simp add: reset_dirs_def rmtree_def path_exists_def path_error_def ex_blocked_def ex_fs_def)
  ultimately show ?thesis
    by (simp add: train_def wf_ex_blocked)
qed

subsection \<open>The epoch loop\<close>

lemma checkpoints_append: "checkpoints (xs @ ys) = checkpoints xs @ checkpoints ys"
  by (induction xs rule: checkpoints.induct) auto

lemma epoch_body_Inr:
  assumes "epoch_body T lft lfv sd mn trl vll outp chkp st e = Inr st1"
  shows "\<exists>m1 tl tt m2 vl vt.
           train_one_step T (net_of st) lft sd mn trl (train_start T e) (train_stop T e)
             = Inr (m1, tl, tt) \<and>
           validate_one_step T m1 lfv sd mn vll (val_start T e) (val_stop T e)
             = Inr (m2, vl, vt) \<and>
           net_of st1 = m2\<lparr>state := scheduler_step T (state m2)\<rparr> \<and>
           (if vl < best_val_loss st
            then best_val_loss st1 = vl \<and> records (logged st1) = records (logged st) @ [(Suc e, vl)] \<and>
                 checkpoints (saved st1) = checkpoints (saved st) @ [(Suc e, vl)]
            else best_val_loss st1 = best_val_loss st \<and> logged st1 = logged st \<and> saved st1 = saved st)"
proof -
  from assms obtain m1 tl tt where
    t: "train_one_step T (net_of st) lft sd mn trl (train_start T e) (train_stop T e) = Inr (m1, tl, tt)"
    by (cases "train_one_step T (net_of st) lft sd mn trl (train_start T e) (train_stop T e)")
       (auto simp: epoch_body_def)
  from assms t obtain m2 vl vt where
    v: "validate_one_step T m1 lfv sd mn vll (val_start T e) (val_stop T e) = Inr (m2, vl, vt)"
    by (cases "validate_one_step T m1 lfv sd mn vll (val_start T e) (val_stop T e)")
       (auto simp: epoch_body_def)
  have "net_of st1 = m2\<lparr>state := scheduler_step T (state m2)\<rparr> \<and>
           (if vl < best_val_loss st
            then best_val_loss st1 = vl \<and> records (logged st1) = records (logged st) @ [(Suc e, vl)] \<and>
                 checkpoints (saved st1) = checkpoints (saved st) @ [(Suc e, vl)]
            else best_val_loss st1 = best_val_loss st \<and> logged st1 = logged st \<and> saved st1 = saved st)"
    using assms
    by (auto simp: epoch_body_def t v Let_def records_def checkpoints_append
             split: sum.splits prod.splits if_splits)
  with t v show ?thesis by blast
qed

lemma epoch_body_best_le:
  assumes "epoch_body T lft lfv sd mn trl vll outp chkp st e = Inr st1"
  shows "best_val_loss st1 \<le> best_val_loss st"
proof -
  from epoch_body_Inr[OF assms] obtain vl where
    "if vl < best_val_loss st
     then best_val_loss st1 = vl \<and> records (logged st1) = records (logged st) @ [(Suc e, vl)] \<and>
          checkpoints (saved st1) = checkpoints (saved st) @ [(Suc e, vl)]
     else best_val_loss st1 = best_val_loss st \<and> logged st1 = logged st \<and> saved st1 = saved st"
    by blast
  then show ?thesis by (simp split: if_splits)
qed

lemma train_loop_best_le:
  "train_loop T lft lfv sd mn trl vll outp chkp st es = Inr st' \<Longrightarrow> best_val_loss st' \<le> best_val_loss st"
proof (induction es arbitrary: st)
  case Nil
  then show ?case by simp
next
  case (Cons e es)
  from Cons.prems obtain st1 where
    b: "epoch_body T lft lfv sd mn trl vll outp chkp st e = Inr st1" and
    l: "train_loop T lft lfv sd mn trl vll outp chkp st1 es = Inr st'"
    by (auto split: sum.splits)
  from Cons.IH[OF l] epoch_body_best_le[OF b] show ?case by simp
qed

lemma train_loop_append:
  "train_loop T lft lfv sd mn trl vll outp chkp st (es1 @ es2) =
     (case train_loop T lft lfv sd mn trl vll outp chkp st es1 of
        Inl err \<Rightarrow> Inl err
      | Inr st1 \<Rightarrow> train_loop T lft lfv sd mn trl vll outp chkp st1 es2)"
  by (induction es1 arbitrary: st) (simp_all split: sum.splits)

text \<open>
  C9. The states of the loop are the states after the first \<open>j\<close> epochs, for every \<open>j\<close>
  (after none of them, \<^verbatim>\<open>best_val_loss\<close> is the value the loop starts from, 1000.0 in
  \<open>train\<close>). When the loop reaches \<open>k\<close> epochs it reached every \<open>j \<le> k\<close> before, and
  \<^verbatim>\<open>best_val_loss\<close> after \<open>k\<close> epochs is at most what it was after \<open>j\<close>.
\<close>

theorem best_val_loss_never_increases:
  assumes "j \<le> k"
      and "train_loop T lft lfv sd mn trl vll outp chkp st (take k epochs) = Inr sk"
  shows "\<exists>sj. train_loop T lft lfv sd mn trl vll outp chkp st (take j epochs) = Inr sj
              \<and> best_val_loss sk \<le> best_val_loss sj"
proof -
  define rest where "rest = drop j (take k epochs)"
  have "take j (take k epochs) = take j epochs"
    using assms(1) by (simp add: min_absorb1)
  then have tk: "take k epochs = take j epochs @ rest"
    unfolding rest_def by (metis append_take_drop_id)
  from assms(2) have "train_loop T lft lfv sd mn trl vll outp chkp st (take j epochs @ rest) = Inr sk"
    by (simp only: tk)
  then obtain sj where
    j: "train_loop T lft lfv sd mn trl vll outp chkp st (take j epochs) = Inr sj" and
    r: "train_loop T lft lfv sd mn trl vll outp chkp sj rest = Inr sk"
    by (cases "train_loop T lft lfv sd mn trl vll outp chkp st (take j epochs)")
       (simp_all add: train_loop_append)
  from train_loop_best_le[OF r] j show ?thesis by blast
qed

text \<open>
  Validation losses 0.5, 0.7 and 0.3: after one epoch \<^verbatim>\<open>best_val_loss\<close> is 0.5, after
  three it is 0.3.
\<close>

theorem best_val_loss_never_increases_witness:
  "(1::nat) \<le> 3
   \<and> (\<exists>sk sj. train_loop ex_torch abs_err abs_err 1 0 [ex_batch] [ex_batch]
                  [''run'', ''BestModel''] [''run'', ''CheckPoints''] (ex_state [0.5, 0.7, 0.3])
                  (take 3 [0, 1, 2]) = Inr sk
             \<and> train_loop ex_torch abs_err abs_err 1 0 [ex_batch] [ex_batch]
                  [''run'', ''BestModel''] [''run'', ''CheckPoints''] (ex_state [0.5, 0.7, 0.3])
                  (take 1 [0, 1, 2]) = Inr sj
             \<and> best_val_loss sk \<le> best_val_loss sj
             \<and> best_val_loss sk = 0.3 \<and> best_val_loss sj = 0.5)"
proof -
  have "\<exists>sk. train_loop ex_torch abs_err abs_err 1 0 [ex_batch] [ex_batch]
                  [''run'', ''BestModel''] [''run'', ''CheckPoints''] (ex_state [0.5, 0.7, 0.3])
                  (take 3 [0, 1, 2]) = Inr sk \<and> best_val_loss sk = 0.3"
    by (simp add: fs_defs writer_defs step_defs loop_defs ex_defs Let_def)
  then obtain sk where
    k: "train_loop ex_torch abs_err abs_err 1 0 [ex_batch] [ex_batch]
                  [''run'', ''BestModel''] [''run'', ''CheckPoints''] (ex_state [0.5, 0.7, 0.3])
                  (take 3 [0, 1, 2]) = Inr sk" and bk: "best_val_loss sk = 0.3"
    by blast
  have le: "(1::nat) \<le> 3" by simp
  from best_val_loss_never_increases[OF le k] obtain sj where
    j: "train_loop ex_torch abs_err abs_err 1 0 [ex_batch] [ex_batch]
                  [''run'', ''BestModel''] [''run'', ''CheckPoints''] (ex_state [0.5, 0.7, 0.3])
                  (take 1 [0, 1, 2]) = Inr sj" and m: "best_val_loss sk \<le> best_val_loss sj"
    by blast
  have "\<exists>s. train_loop ex_torch abs_err abs_err 1 0 [ex_batch] [ex_batch]
                  [''run'', ''BestModel''] [''run'', ''CheckPoints''] (ex_state [0.5, 0.7, 0.3])
                  (take 1 [0, 1, 2]) = Inr s \<and> best_val_loss s = 0.5"
    by (simp add: fs_defs writer_defs step_defs loop_defs ex_defs Let_def)
  with j have bj: "best_val_loss sj = 0.5" by auto
  from le k j m bk bj show ?thesis by blast
qed

subsection \<open>Checkpoints and log records\<close>

lemma loop_trace:
  assumes "train_loop T lft lfv sd mn trl vll outp chkp st es = Inr st'"
  shows "length (val_losses T lft lfv sd mn trl vll (net_of st) es) = length es \<and>
         records (logged st') = records (logged st) @
           improving (best_val_loss st) (zip (map Suc es) (val_losses T lft lfv sd mn trl vll (net_of st) es)) \<and>
         checkpoints (saved st') = checkpoints (saved st) @
           improving (best_val_loss st) (zip (map Suc es) (val_losses T lft lfv sd mn trl vll (net_of st) es))"
  using assms
proof (induction es arbitrary: st)
  case Nil
  then show ?case by (simp add: val_losses_def)
next
  case (Cons e es)
  from Cons.prems obtain st1 where
    b: "epoch_body T lft lfv sd mn trl vll outp chkp st e = Inr st1" and
    l: "train_loop T lft lfv sd mn trl vll outp chkp st1 es = Inr st'"
    by (auto split: sum.splits)
  from epoch_body_Inr[OF b] obtain m1 tl tt m2 vl vt where
    t: "train_one_step T (net_of st) lft sd mn trl (train_start T e) (train_stop T e)
             = Inr (m1, tl, tt)" and
    v: "validate_one_step T m1 lfv sd mn vll (val_start T e) (val_stop T e)
             = Inr (m2, vl, vt)" and
    n: "net_of st1 = m2\<lparr>state := scheduler_step T (state m2)\<rparr>" and
    c: "if vl < best_val_loss st
            then best_val_loss st1 = vl \<and> records (logged st1) = records (logged st) @ [(Suc e, vl)] \<and>
                 checkpoints (saved st1) = checkpoints (saved st) @ [(Suc e, vl)]
            else best_val_loss st1 = best_val_loss st \<and> logged st1 = logged st \<and> saved st1 = saved st"
    by blast
  have vs: "val_losses T lft lfv sd mn trl vll (net_of st) (e # es)
              = vl # val_losses T lft lfv sd mn trl vll (net_of st1) es"
    by (simp add: val_losses_def t v n)
  from Cons.IH[OF l] c show ?case
    by (simp add: vs split: if_splits)
qed

lemma improving_filter:
  "length es = length vs \<Longrightarrow>
   improving b (zip es vs) = map (\<lambda>k. (es ! k, vs ! k)) (filter (improves b vs) [0..<length vs])"
proof (induction vs arbitrary: b es)
  case Nil
  then show ?case by simp
next
  case (Cons v vs)
  then obtain e es' where es: "es = e # es'" and len: "length es' = length vs"
    by (cases es) auto
  have upt: "[0..<length (v # vs)] = 0 # map Suc [0..<length vs]"
    by (simp add: upt_conv_Cons map_Suc_upt del: upt_Suc)
  have shift: "filter (improves b (v # vs)) (map Suc [0..<length vs])
                 = map Suc (filter (improves (if v < b then v else b) vs) [0..<length vs])"
    unfolding filter_map
    by (rule arg_cong[where f = "map Suc"], rule filter_cong) (auto simp: improves_def)
  have zero: "improves b (v # vs) 0 = (v < b)"
    by (simp add: improves_def)
  show ?case
    unfolding es upt
    by (simp add: zero shift Cons.IH[OF len] o_def del: upt_Suc)
qed


lemma improves_list_all: "improves b vs k = (vs ! k < b \<and> list_all (\<lambda>v. vs ! k < v) (take k vs))"
  by (simp add: improves_def list_all_iff)

lemma improving_epochs:
  assumes "length vs = n"
  shows "improving b (zip (map Suc [0..<n]) vs) = map (\<lambda>k. (Suc k, vs ! k)) (filter (improves b vs) [0..<n])"
proof -
  have "improving b (zip (map Suc [0..<n]) vs)
          = map (\<lambda>k. (map Suc [0..<n] ! k, vs ! k)) (filter (improves b vs) [0..<length vs])"
    by (rule improving_filter) (simp add: assms)
  also have "\<dots> = map (\<lambda>k. (Suc k, vs ! k)) (filter (improves b vs) [0..<n])"
    unfolding assms by (rule map_cong) auto
  finally show ?thesis .
qed

text \<open>
  C1, amended. \<open>vs\<close> are the validation losses of the epochs of a run that returns.
  There is one for every epoch, and the epochs (numbered from 1) for which a log record
  is dumped, and those for which a checkpoint is saved, are exactly those whose loss is
  below 1000 and below the loss of every earlier epoch, in order and each with its
  loss.
\<close>

theorem checkpoint_iff_improvement:
  fixes T :: "('s, 'n, 'e, 'a, 't::{plus,minus,times,inverse}, 'd) torch"
  assumes run: "train T self num_epochs lft lfv sd mn trl vll logger_name path fs = Inr st"
  defines "vs \<equiv> val_losses T lft lfv sd mn trl vll self [0..<nat num_epochs]"
  shows "length vs = nat num_epochs
       \<and> records (logged st) = map (\<lambda>k. (Suc k, vs ! k)) (filter (improves 1000 vs) [0..<nat num_epochs])
       \<and> checkpoints (saved st) = map (\<lambda>k. (Suc k, vs ! k)) (filter (improves 1000 vs) [0..<nat num_epochs])"
proof -
  from run obtain fs1 fs2 w sl where
    l: "train_loop T lft lfv sd mn trl vll (path @ [''BestModel'']) (path @ [''CheckPoints''])
          \<lparr>net_of = self, disk = fs2, jsonlog = w, best_val_loss = 1000, saved = [], logged = []\<rparr>
          [0..<nat num_epochs] = Inr sl" and
    st: "st = sl\<lparr>disk := close (disk sl) (jsonlog sl)\<rparr>"
    by (auto simp: train_def run_epochs_def split: sum.splits prod.splits)
  from loop_trace[OF l] have
    len: "length vs = length [0..<nat num_epochs]" and
    r: "records (logged sl) = improving 1000 (zip (map Suc [0..<nat num_epochs]) vs)" and
    c: "checkpoints (saved sl) = improving 1000 (zip (map Suc [0..<nat num_epochs]) vs)"
    by (simp_all add: vs_def records_def)
  from len have n: "length vs = nat num_epochs" by simp
  show ?thesis
    using n r c by (simp add: st improving_epochs[OF n])
qed

lemma ex_vals:
  "val_losses ex_torch abs_err abs_err 1 0 [ex_batch] [ex_batch] (ex_net [0.5, 0.3, 0.4, 0.2]) [0..<nat 4]
   = [0.5, 0.3, 0.4, 0.2]"
  by (simp add: val_losses_def step_defs ex_defs upt_rec)

lemma ex_filter: "filter (improves 1000 [0.5, 0.3, 0.4, 0.2]) [0..<nat 4] = [0, 1, 3]"
  by (simp add: upt_rec improves_list_all take_Cons' nth_Cons')

lemma ex_run:
  "\<exists>st. train ex_torch (ex_net [0.5, 0.3, 0.4, 0.2]) 4 abs_err abs_err 1 0 [ex_batch] [ex_batch]
          ex_log [''run''] ex_fs = Inr st"
  by (simp add: fs_defs writer_defs step_defs loop_defs ex_defs upt_rec Let_def)

text \<open>
  The losses 0.5, 0.3, 0.4 and 0.2 over four epochs: records and checkpoints at the
  epochs 1, 2 and 4, none at epoch 3.
\<close>

theorem checkpoint_iff_improvement_witness:
  "\<exists>st. train ex_torch (ex_net [0.5, 0.3, 0.4, 0.2]) 4 abs_err abs_err 1 0 [ex_batch] [ex_batch]
          ex_log [''run''] ex_fs = Inr st
        \<and> records (logged st) = [(1, 0.5), (2, 0.3), (4, 0.2)]
        \<and> checkpoints (saved st) = [(1, 0.5), (2, 0.3), (4, 0.2)]"
proof -
  from ex_run obtain st where
    r: "train ex_torch (ex_net [0.5, 0.3, 0.4, 0.2]) 4 abs_err abs_err 1 0 [ex_batch] [ex_batch]
          ex_log [''run''] ex_fs = Inr st" ..
  from checkpoint_iff_improvement[OF r, unfolded ex_vals ex_filter]
  have "records (logged st) = [(1, 0.5), (2, 0.3), (4, 0.2)]
        \<and> checkpoints (saved st) = [(1, 0.5), (2, 0.3), (4, 0.2)]"
    by simp
  with r show ?thesis by blast
qed

text \<open>
  Against C1 as stated ("epoch 1 always qualifies, whatever its loss value"): a run of
  one epoch whose validation loss is 2000 returns, and has saved no checkpoint and
  dumped no record.
\<close>

theorem first_epoch_counterexample:
  "val_losses ex_torch abs_err abs_err 1 0 [ex_batch] [ex_batch] (ex_net [2000]) [0..<nat 1] = [2000]
   \<and> map_sum id logged
       (train ex_torch (ex_net [2000]) 1 abs_err abs_err 1 0 [ex_batch] [ex_batch] ex_log [''run''] ex_fs)
     = Inr []
   \<and> map_sum id saved
       (train ex_torch (ex_net [2000]) 1 abs_err abs_err 1 0 [ex_batch] [ex_batch] ex_log [''run''] ex_fs)
     = Inr []"
  by (simp add: val_losses_def fs_defs writer_defs step_defs loop_defs ex_defs Let_def)

end
